(* ===== verification/Prelude.thy ===== *)
theory Prelude
  imports Main "HOL-Library.Word" "HOL-Library.Sublist"
begin

text \<open>
  Shared vocabulary of the development: the machine types of the Rust program
  (\<open>usize\<close> and \<open>u8\<close> as words), the JSON values that the request handler returns
  (the \<open>serde_json::Value\<close> built by the \<open>json!\<close> macro), a first-occurrence
  deduplication used as the reference for the scope-name table, and the generic
  lemmas on lists and words the component theories share.  Rust strings are
  UTF-8 byte sequences; an Isabelle \<open>char\<close> is one byte, so \<open>string\<close> is the
  byte view of a \<open>&str\<close> and \<open>length\<close> is \<open>str::len\<close>.
\<close>

named_theorems str_simps "characteristic equations of the Rust string operations"
named_theorems stack_simps "characteristic equations of the scope stack operations"
named_theorems export_simps "unfolding equations of the scope exporter loops"

type_synonym usize = "64 word"
type_synonym u8 = "8 word"

text \<open>JSON values, as \<open>serde_json::Value\<close>; numbers that occur here are unsigned.
  An object lists its fields in the order the \<open>json!\<close> literal of the source writes
  them; the order \<open>serde_json\<close> serialises them in is not observable through
  \<open>json_get\<close>.\<close>

datatype json =
    JNull
  | JBool bool
  | JNum nat
  | JStr string
  | JArr "json list"
  | JObj "(string \<times> json) list"

fun json_get :: "json \<Rightarrow> string \<Rightarrow> json option" where
  "json_get (JObj kvs) k = map_of kvs k"
| "json_get _ k = None"

text \<open>First-occurrence deduplication: the order in which an insertion-ordered set
  (\<open>indexmap::IndexSet\<close>) holds what was inserted into it.\<close>

function nub :: "'a list \<Rightarrow> 'a list" where
  "nub [] = []"
| "nub (x # xs) = x # nub (filter (\<lambda>y. y \<noteq> x) xs)"
  by pat_completeness auto
termination
  by (relation "measure length") (auto simp: le_imp_less_Suc)

section \<open>Shared lemmas\<close>

lemma set_nub [simp]: "set (nub xs) = set xs"
  by (induction xs rule: nub.induct) auto

lemma distinct_nub [simp]: "distinct (nub xs)"
  by (induction xs rule: nub.induct) auto

lemma nub_append:
  "nub (xs @ ys) = nub xs @ nub (filter (\<lambda>y. y \<notin> set xs) ys)"
proof (induction xs arbitrary: ys rule: nub.induct)
  case 1
  then show ?case by simp
next
  case (2 x xs)
  have "nub ((x # xs) @ ys) = x # nub (filter (\<lambda>y. y \<noteq> x) xs @ filter (\<lambda>y. y \<noteq> x) ys)"
    by simp
  also have "\<dots> = x # nub (filter (\<lambda>y. y \<noteq> x) xs)
      @ nub (filter (\<lambda>y. y \<notin> set (filter (\<lambda>y. y \<noteq> x) xs)) (filter (\<lambda>y. y \<noteq> x) ys))"
    by (simp add: "2.IH")
  also have "filter (\<lambda>y. y \<notin> set (filter (\<lambda>y. y \<noteq> x) xs)) (filter (\<lambda>y. y \<noteq> x) ys)
      = filter (\<lambda>y. y \<notin> set (x # xs)) ys"
    by (auto intro: filter_cong)
  finally show ?case by simp
qed

lemma nub_distinct_id: "distinct xs \<Longrightarrow> nub xs = xs"
  by (induction xs rule: nub.induct) (auto simp: filter_id_conv)

lemma unat_of_nat_bounded [simp]:
  "n < 2 ^ LENGTH('a) \<Longrightarrow> unat (word_of_nat n :: 'a::len word) = n"
  by (simp add: unat_of_nat)

lemma take_drop_concat_prefix:
  "take (length xs) (xs @ ys) = xs \<and> drop (length xs) (xs @ ys) = ys"
  by simp

lemma nub_distinct_append:
  "distinct xs \<Longrightarrow> nub (xs @ ys) = xs @ nub (filter (\<lambda>y. y \<notin> set xs) ys)"
  by (subst nub_append) (simp add: nub_distinct_id)

lemma nub_nub_append: "nub (nub xs @ ys) = nub (xs @ ys)"
proof -
  have "nub (nub xs @ ys) = nub (nub xs) @ nub (filter (\<lambda>y. y \<notin> set (nub xs)) ys)"
    by (rule nub_append)
  also have "\<dots> = nub xs @ nub (filter (\<lambda>y. y \<notin> set xs) ys)"
    by (simp only: nub_distinct_id [OF distinct_nub] set_nub)
  also have "\<dots> = nub (xs @ ys)"
    by (rule nub_append [symmetric])
  finally show ?thesis .
qed


lemma length_le_concat: "\<forall>l \<in> set ls. l \<noteq> [] \<Longrightarrow> length ls \<le> length (concat ls)"
proof (induction ls)
  case Nil
  then show ?case by simp
next
  case (Cons l ls)
  then have "1 \<le> length l" by (simp add: Suc_leI)
  with Cons show ?case by simp
qed


lemma of_nat_sum_list_map: "of_nat (sum_list xs) = sum_list (map of_nat xs)"
  by (induction xs) simp_all


end
