(* ===== verification/Scope_Stack.thy ===== *)
theory Scope_Stack
  imports Prelude
begin

text \<open>
  syntect's \<open>ScopeStack\<close> (\<open>syntect::parsing::scope\<close>), which
  \<open>scopify_string_newlines\<close> keeps for the whole snippet: the stack of open scopes
  (\<open>scopes\<close>, bottom first, as \<open>as_slice\<close> returns it) and a stack of groups of
  scopes removed by \<open>Clear\<close> that \<open>Restore\<close> puts back.  Scopes are represented by
  their names.  \<open>stack_apply\<close> is \<open>ScopeStack::apply\<close>: \<open>Pop\<close> on an empty
  stack does nothing (\<open>Vec::pop\<close>), \<open>Restore\<close> with nothing cleared panics
  (\<open>None\<close>).  The lemmas show that \<open>Restore\<close> undoes \<open>Clear\<close>, that a run of
  operations panics exactly when some \<open>Restore\<close> has no matching \<open>Clear\<close>, and
  how deep the clear stack is after a run.
\<close>

text \<open>\<open>ClearAmount\<close>; its variant \<open>All\<close> is \<open>AllScopes\<close> here (\<open>All\<close> is HOL's quantifier).\<close>

datatype clear_amount = TopN nat | AllScopes

datatype scope_stack_op =
    Push string
  | Pop nat
  | Clear clear_amount
  | Restore
  | Noop

record scope_stack =
  clear_stack :: "string list list"
  scopes :: "string list"

definition scope_stack_new :: scope_stack where
  "scope_stack_new = \<lparr>clear_stack = [], scopes = []\<rparr>"

text \<open>\<open>for _ in 0..count { self.scopes.pop(); }\<close>\<close>

fun pop_n :: "nat \<Rightarrow> 'a list \<Rightarrow> 'a list" where
  "pop_n 0 xs = xs"
| "pop_n (Suc n) xs = pop_n n (butlast xs)"

fun stack_apply :: "scope_stack \<Rightarrow> scope_stack_op \<Rightarrow> scope_stack option" where
  "stack_apply st (Push s) = Some (st\<lparr>scopes := scopes st @ [s]\<rparr>)"
| "stack_apply st (Pop count) = Some (st\<lparr>scopes := pop_n count (scopes st)\<rparr>)"
| "stack_apply st (Clear amount) =
     (let to_leave = (case amount of
                        TopN n \<Rightarrow> length (scopes st) - min n (length (scopes st))
                      | AllScopes \<Rightarrow> 0);
          cleared = drop to_leave (scopes st)
      in Some (st\<lparr>scopes := take to_leave (scopes st),
                  clear_stack := clear_stack st @ [cleared]\<rparr>))"
| "stack_apply st Restore =
     (case clear_stack st of
        [] \<Rightarrow> None
      | _ \<Rightarrow> Some (st\<lparr>scopes := scopes st @ last (clear_stack st),
                      clear_stack := butlast (clear_stack st)\<rparr>))"
| "stack_apply st Noop = Some st"

text \<open>A run of operations, stopping at the first panic.\<close>

fun stack_apply_all :: "scope_stack \<Rightarrow> scope_stack_op list \<Rightarrow> scope_stack option" where
  "stack_apply_all st [] = Some st"
| "stack_apply_all st (op # ops) =
     (case stack_apply st op of None \<Rightarrow> None | Some st' \<Rightarrow> stack_apply_all st' ops)"

text \<open>The condition under which a run does not panic: with \<open>d\<close> groups cleared
  and not yet restored, every \<open>Restore\<close> finds one.\<close>

fun restores_balanced :: "nat \<Rightarrow> scope_stack_op list \<Rightarrow> bool" where
  "restores_balanced d [] = True"
| "restores_balanced d (Clear a # ops) = restores_balanced (Suc d) ops"
| "restores_balanced d (Restore # ops) = (d \<noteq> 0 \<and> restores_balanced (d - 1) ops)"
| "restores_balanced d (Push s # ops) = restores_balanced d ops"
| "restores_balanced d (Pop n # ops) = restores_balanced d ops"
| "restores_balanced d (Noop # ops) = restores_balanced d ops"

section \<open>Lemmas\<close>

lemma pop_n_eq_take [stack_simps]: "pop_n n xs = take (length xs - n) xs"
  by (induction n xs rule: pop_n.induct) (auto simp: butlast_conv_take min_def)

lemma stack_apply_None_iff [stack_simps]:
  "stack_apply st op = None \<longleftrightarrow> op = Restore \<and> clear_stack st = []"
  by (cases op) (auto simp: Let_def split: list.splits)

lemma stack_apply_clear_depth:
  "stack_apply st op = Some st' \<Longrightarrow>
     length (clear_stack st') =
       (case op of Clear a \<Rightarrow> Suc (length (clear_stack st))
                 | Restore \<Rightarrow> length (clear_stack st) - 1
                 | _ \<Rightarrow> length (clear_stack st))"
  by (cases op) (auto simp: Let_def split: list.splits)

text \<open>\<open>Restore\<close> undoes \<open>Clear\<close>: whatever the amount cleared, restoring
  right after brings the cleared scopes back in their order and leaves the stack of
  cleared groups as it was.\<close>

lemma stack_clear_restore:
  assumes "stack_apply st (Clear a) = Some st'"
  shows "stack_apply st' Restore = Some st"
proof -
  obtain k where st': "st' = st\<lparr>scopes := take k (scopes st),
                         clear_stack := clear_stack st @ [drop k (scopes st)]\<rparr>"
    using assms by (auto simp: Let_def)
  then have "clear_stack st' \<noteq> []" by simp
  then have "stack_apply st' Restore = Some (st'\<lparr>scopes := scopes st' @ last (clear_stack st'),
                                               clear_stack := butlast (clear_stack st')\<rparr>)"
    by (cases "clear_stack st'") auto
  also have "\<dots> = Some st" using st' by simp
  finally show ?thesis .
qed

lemma stack_push_pop: "stack_apply st (Push s) = Some st' \<Longrightarrow> stack_apply st' (Pop 1) = Some st"
  by (auto simp: stack_simps)

lemma stack_apply_all_append:
  "stack_apply_all st (xs @ ys) = (case stack_apply_all st xs of None \<Rightarrow> None | Some st' \<Rightarrow> stack_apply_all st' ys)"
  by (induction xs arbitrary: st) (auto split: option.splits)

text \<open>A run of scope-stack operations panics exactly when a \<open>Restore\<close> finds no
  cleared group: the run succeeds if and only if, counting the groups cleared and not
  yet restored, every \<open>Restore\<close> has one to take.\<close>

lemma stack_apply_all_succeeds_iff:
  "stack_apply_all st ops \<noteq> None \<longleftrightarrow> restores_balanced (length (clear_stack st)) ops"
proof (induction ops arbitrary: st)
  case Nil
  then show ?case by simp
next
  case (Cons op ops)
  show ?case
  proof (cases "stack_apply st op")
    case None
    then have "op = Restore \<and> clear_stack st = []" by (simp add: stack_apply_None_iff)
    with None show ?thesis by simp
  next
    case (Some st')
    with Cons.IH have run: "stack_apply_all st (op # ops) \<noteq> None
        \<longleftrightarrow> restores_balanced (length (clear_stack st')) ops"
      by simp
    from Some have depth: "length (clear_stack st') =
       (case op of Clear a \<Rightarrow> Suc (length (clear_stack st))
                 | Restore \<Rightarrow> length (clear_stack st) - 1
                 | _ \<Rightarrow> length (clear_stack st))"
      by (rule stack_apply_clear_depth)
    from Some have "op = Restore \<Longrightarrow> clear_stack st \<noteq> []"
      by (auto simp: stack_apply_None_iff)
    with run depth show ?thesis by (cases op) auto
  qed
qed

end
