(* ===== verification/Rust_Str.thy ===== *)
theory Rust_Str
  imports Prelude
begin

text \<open>
  The parts of Rust's standard library that the server's code calls on strings
  and paths, as the standard library defines them: \<open>str::is_char_boundary\<close>,
  range slicing \<open>&s[i..j]\<close> (which panics off a character boundary, modelled as
  \<open>None\<close>), \<open>str::find\<close> of a character, \<open>str::split_at\<close>, and the two
  accessors of \<open>std::path::Path\<close> that \<open>highlight\<close> uses, \<open>file_name\<close> and
  \<open>extension\<close> (Unix paths: components separated by \<open>/\<close>, empty and \<open>.\<close>
  components skipped).
\<close>

section \<open>Strings\<close>

text \<open>A byte \<open>b\<close> continues a UTF-8 sequence when \<open>(b as i8) < -0x40\<close>,
  i.e. \<open>0x80 \<le> b < 0xC0\<close>.\<close>

definition is_utf8_continuation :: "char \<Rightarrow> bool" where
  "is_utf8_continuation c \<longleftrightarrow> (128::nat) \<le> of_char c \<and> (of_char c :: nat) < 192"

definition is_char_boundary :: "string \<Rightarrow> nat \<Rightarrow> bool" where
  "is_char_boundary s i \<longleftrightarrow>
     i = 0 \<or> (if i < length s then \<not> is_utf8_continuation (s ! i) else i = length s)"

text \<open>\<open>&s[i..j]\<close>: the bytes \<open>i\<close> to \<open>j - 1\<close>; a panic unless \<open>i \<le> j\<close> and both
  ends are character boundaries (which includes \<open>j \<le> s.len()\<close>).\<close>

definition str_slice :: "string \<Rightarrow> nat \<Rightarrow> nat \<Rightarrow> string option" where
  "str_slice s i j =
     (if i \<le> j \<and> is_char_boundary s i \<and> is_char_boundary s j
      then Some (take (j - i) (drop i s)) else None)"

text \<open>\<open>s.find(c)\<close>: the byte index of the first occurrence of \<open>c\<close>.\<close>

fun str_find :: "char \<Rightarrow> string \<Rightarrow> nat option" where
  "str_find c [] = None"
| "str_find c (x # xs) = (if x = c then Some 0 else map_option Suc (str_find c xs))"

text \<open>\<open>s.split_at(mid)\<close>.  The standard library panics when \<open>mid\<close> is not a
  character boundary; its only caller splits right after an ASCII newline or at the
  end of the string, which in a (valid UTF-8) \<open>&str\<close> is always a boundary, so that
  branch is not part of the model.\<close>

definition str_split_at :: "string \<Rightarrow> nat \<Rightarrow> string \<times> string" where
  "str_split_at s mid = (take mid s, drop mid s)"

section \<open>Paths\<close>

fun split_on :: "char \<Rightarrow> string \<Rightarrow> string list" where
  "split_on c [] = [[]]"
| "split_on c (x # xs) =
     (if x = c then [] # split_on c xs
      else (case split_on c xs of [] \<Rightarrow> [[x]] | y # ys \<Rightarrow> (x # y) # ys))"

text \<open>The \<open>Normal\<close> and \<open>ParentDir\<close> components of a Unix path, in order:
  \<open>Path::components\<close> drops empty components (repeated or trailing \<open>/\<close>) and
  \<open>.\<close> components; a leading \<open>.\<close> or \<open>/\<close> yields a \<open>CurDir\<close> or \<open>RootDir\<close>
  component, which can only be the last component when there is no other.\<close>

definition path_components :: "string \<Rightarrow> string list" where
  "path_components p = filter (\<lambda>c. c \<noteq> [] \<and> c \<noteq> ''.'') (split_on CHR ''/'' p)"

text \<open>\<open>Path::file_name\<close>: the last component when it is a \<open>Normal\<close> one.\<close>

definition path_file_name :: "string \<Rightarrow> string option" where
  "path_file_name p =
     (case rev (path_components p) of
        [] \<Rightarrow> None
      | c # _ \<Rightarrow> if c = ''..'' then None else Some c)"

text \<open>\<open>rsplit_file_at_dot\<close> of \<open>std::path\<close>: split a file name at its last dot;
  a name whose only dot is its first byte (\<open>.bashrc\<close>) has no extension.\<close>

definition rsplit_file_at_dot :: "string \<Rightarrow> string option \<times> string option" where
  "rsplit_file_at_dot file =
     (if file = ''..'' then (Some file, None)
      else (case str_find CHR ''.'' (rev file) of
              None \<Rightarrow> (None, Some file)
            | Some i \<Rightarrow>
                (let before = take (length file - Suc i) file;
                     after = drop (length file - i) file
                 in if before = [] then (Some file, None) else (Some before, Some after))))"

text \<open>\<open>Path::extension\<close>: \<open>self.file_name().map(rsplit_file_at_dot)
  .and_then(|(before, after)| before.and(after))\<close>.\<close>

definition path_extension :: "string \<Rightarrow> string option" where
  "path_extension p =
     (case path_file_name p of
        None \<Rightarrow> None
      | Some f \<Rightarrow> (case rsplit_file_at_dot f of (before, after) \<Rightarrow>
                     if before = None then None else after))"

section \<open>Lemmas\<close>

lemma str_find_Some_iff:
  "str_find c s = Some i \<longleftrightarrow> i < length s \<and> s ! i = c \<and> c \<notin> set (take i s)"
proof (induction s arbitrary: i)
  case Nil
  then show ?case by simp
next
  case (Cons x xs)
  then show ?case by (cases i) auto
qed

lemma str_find_None_iff [str_simps]: "str_find c s = None \<longleftrightarrow> c \<notin> set s"
  by (induction s) auto

lemma str_find_append_notin [str_simps]:
  "c \<notin> set w \<Longrightarrow> str_find c (w @ c # rest) = Some (length w)"
  by (induction w) auto

lemma is_char_boundary_0 [str_simps]: "is_char_boundary s 0"
  by (simp add: is_char_boundary_def)

lemma is_char_boundary_length [str_simps]: "is_char_boundary s (length s)"
  by (simp add: is_char_boundary_def)

lemma is_char_boundary_le: "is_char_boundary s i \<Longrightarrow> i \<le> length s"
  by (auto simp: is_char_boundary_def split: if_splits)

lemma str_slice_Some_iff:
  "str_slice s i j = Some t \<longleftrightarrow>
     i \<le> j \<and> is_char_boundary s i \<and> is_char_boundary s j \<and> t = take (j - i) (drop i s)"
  by (auto simp: str_slice_def)

lemma str_slice_length:
  "str_slice s i j = Some t \<Longrightarrow> length t = j - i"
  by (auto simp: str_slice_Some_iff dest: is_char_boundary_le)

text \<open>Two adjacent slices make the slice that spans both.\<close>

lemma str_slice_adjacent:
  assumes "str_slice s i j = Some t" and "str_slice s j k = Some u"
  shows "str_slice s i k = Some (t @ u)"
proof -
  from assms have ij: "i \<le> j" and jk: "j \<le> k" and k: "k \<le> length s"
    and bi: "is_char_boundary s i" and bk: "is_char_boundary s k"
    by (auto simp: str_slice_Some_iff dest: is_char_boundary_le)
  from assms have t: "t = take (j - i) (drop i s)" and u: "u = take (k - j) (drop j s)"
    by (auto simp: str_slice_Some_iff)
  have "take (k - i) (drop i s) = take (j - i) (drop i s) @ take (k - j) (drop j s)"
  proof -
    have "k - i = (j - i) + (k - j)" using ij jk by simp
    then have "take (k - i) (drop i s)
        = take (j - i) (drop i s) @ take (k - j) (drop (j - i) (drop i s))"
      by (simp add: take_add)
    also have "drop (j - i) (drop i s) = drop j s" using ij by simp
    finally show ?thesis .
  qed
  with ij jk bi bk t u show ?thesis by (simp add: str_slice_def)
qed

lemma split_on_nonempty [simp]: "split_on c s \<noteq> []"
  by (induction s) (auto split: list.splits)

lemma split_on_no_sep: "x \<in> set (split_on c s) \<Longrightarrow> c \<notin> set x"
  by (induction s arbitrary: x) (auto split: list.splits if_splits)


text \<open>A file name split at its last dot: a non-empty stem, the dot, and an extension
  without a dot.\<close>

lemma rsplit_file_at_dot_parts:
  assumes "rsplit_file_at_dot f = (Some b, Some a)"
  shows "f = b @ ''.'' @ a \<and> b \<noteq> [] \<and> CHR ''.'' \<notin> set a"
proof -
  from assms obtain i where
    i: "str_find CHR ''.'' (rev f) = Some i" and
    b: "b = take (length f - Suc i) f" and a: "a = drop (length f - i) f" and bne: "b \<noteq> []"
    by (auto simp: rsplit_file_at_dot_def Let_def split: if_splits option.splits)
  from i have lt: "i < length f" and dot: "rev f ! i = CHR ''.''"
    and nodot: "CHR ''.'' \<notin> set (take i (rev f))"
    by (auto simp: str_find_Some_iff)
  have fi: "f ! (length f - Suc i) = CHR ''.''"
    using dot lt by (simp add: rev_nth)
  have "take i (rev f) = rev (drop (length f - i) f)"
    by (simp add: take_rev)
  with nodot have "CHR ''.'' \<notin> set a" by (simp add: a)
  moreover have "f = b @ ''.'' @ a"
  proof -
    have "f = take (length f - Suc i) f @ f ! (length f - Suc i) # drop (Suc (length f - Suc i)) f"
      using lt by (simp add: id_take_nth_drop)
    also have "Suc (length f - Suc i) = length f - i" using lt by simp
    finally show ?thesis using fi by (simp add: a b)
  qed
  ultimately show ?thesis using bne by simp
qed

lemma path_file_name_no_slash:
  "path_file_name p = Some f \<Longrightarrow> CHR ''/'' \<notin> set f"
proof -
  assume "path_file_name p = Some f"
  then have "f \<in> set (path_components p)"
    by (auto simp: path_file_name_def split: list.splits if_splits dest: arg_cong [of _ _ set])
  then show ?thesis
    by (auto simp: path_components_def dest: split_on_no_sep)
qed

end
