(* ===== verification/Syntect.thy ===== *)
theory Syntect
  imports Scope_Stack Rust_Str
begin

text \<open>
  The interface between the server and the syntect library.  The server calls a
  syntax set (\<open>SYNTAX_SET\<close>: lookups by extension and by first line, the plain
  text syntax), a theme set (\<open>THEME_SET.themes\<close>), a parser (\<open>ParseState::new\<close>,
  \<open>parse_line\<close>), a highlighter (\<open>HighlightLines::new\<close>, \<open>highlight\<close>) and the
  iterator \<open>ScopeRegionIterator\<close>.  The first five are opaque to the server and
  are the fields of the record \<open>syntect\<close>: every theorem of the development
  holds for every instance.  A field that can panic inside syntect (the
  tokenizer, the highlighter) returns \<open>None\<close> for the panic.
  The catalogs' listings are fields too: \<open>THEME_SET.themes.keys()\<close> (a
  \<open>BTreeMap\<close>, so sorted and without duplicates), \<open>syntax_set.syntaxes()\<close> and
  each syntax's \<open>file_extensions\<close>.
  \<open>ScopeRegionIterator\<close> is modelled as syntect defines it, since its slicing
  is where a malformed operation list makes the server panic.
\<close>

section \<open>Colours and styles (syntect::highlighting)\<close>

record color =
  color_r :: u8
  color_g :: u8
  color_b :: u8
  color_a :: u8

definition color_white :: color where
  "color_white = \<lparr>color_r = 0xFF, color_g = 0xFF, color_b = 0xFF, color_a = 0xFF\<rparr>"

text \<open>\<open>FontStyle\<close> is a bit set over a byte: \<open>BOLD = 1\<close>, \<open>UNDERLINE = 2\<close>,
  \<open>ITALIC = 4\<close>.\<close>

record style =
  foreground :: color
  background :: color
  font_style :: u8

section \<open>The collaborators\<close>

record ('syn, 'thm, 'ps, 'hl) syntect =
  find_syntax_by_extension :: "string \<Rightarrow> 'syn option"
  find_syntax_by_first_line :: "string \<Rightarrow> 'syn option"
  find_syntax_plain_text :: "'syn"
  syntax_name :: "'syn \<Rightarrow> string"
  parse_state_new :: "'syn \<Rightarrow> 'ps"
  parse_line :: "'ps \<Rightarrow> string \<Rightarrow> ('ps \<times> (nat \<times> scope_stack_op) list) option"
  highlight_lines_new :: "'syn \<Rightarrow> 'thm \<Rightarrow> 'hl"
  highlight_line :: "'hl \<Rightarrow> string \<Rightarrow> ('hl \<times> (style \<times> string) list) option"
  theme_background :: "'thm \<Rightarrow> color option"
  themes :: "string \<Rightarrow> 'thm option"
  theme_names :: "string list"
  syntaxes :: "'syn list"
  file_extensions :: "'syn \<Rightarrow> string list"

section \<open>ScopeRegionIterator (syntect::easy)\<close>

text \<open>
  Given the operations \<open>(i, op)\<close> that \<open>parse_line\<close> produced for a line, the
  iterator yields \<open>ops.len() + 1\<close> pairs: the text before the first operation with
  a \<open>Noop\<close>, then for each operation the text from its position to the next
  operation's position (or the end of the line) with that operation.  Each piece is
  a slice \<open>&line[last_str_index..next]\<close>, which panics when positions decrease or
  fall off a character boundary.  \<open>last_str_index\<close> is the iterator's field of that name and \<open>op\<close>
  the operation that belongs to the next piece.
\<close>

fun scope_region_iter ::
  "string \<Rightarrow> nat \<Rightarrow> scope_stack_op \<Rightarrow> (nat \<times> scope_stack_op) list
     \<Rightarrow> (string \<times> scope_stack_op) list option" where
  "scope_region_iter line last_str_index op [] =
     map_option (\<lambda>s. [(s, op)]) (str_slice line last_str_index (length line))"
| "scope_region_iter line last_str_index op ((i, op') # ops) =
     (case str_slice line last_str_index i of
        None \<Rightarrow> None
      | Some s \<Rightarrow> map_option (Cons (s, op)) (scope_region_iter line i op' ops))"

definition scope_region_iterator ::
  "(nat \<times> scope_stack_op) list \<Rightarrow> string \<Rightarrow> (string \<times> scope_stack_op) list option" where
  "scope_region_iterator ops line = scope_region_iter line 0 Noop ops"

text \<open>The operation positions the iterator accepts: non-decreasing, on character
  boundaries (hence within the line).\<close>

fun positions_ok :: "string \<Rightarrow> nat \<Rightarrow> (nat \<times> scope_stack_op) list \<Rightarrow> bool" where
  "positions_ok line last_str_index [] = True"
| "positions_ok line last_str_index ((i, op) # ops) =
     (last_str_index \<le> i \<and> is_char_boundary line i \<and> positions_ok line i ops)"

section \<open>Lemmas\<close>

lemma scope_region_iter_concat:
  "scope_region_iter line last_str_index op ops = Some items \<Longrightarrow>
     str_slice line last_str_index (length line) = Some (concat (map fst items))"
proof (induction line last_str_index op ops arbitrary: items rule: scope_region_iter.induct)
  case (1 line last_str_index op)
  then show ?case by auto
next
  case (2 line last_str_index op i op' ops)
  then obtain s items' where s: "str_slice line last_str_index i = Some s"
    and rest: "scope_region_iter line i op' ops = Some items'"
    and items: "items = (s, op) # items'"
    by (auto split: option.splits)
  from "2.IH" [OF s rest] have "str_slice line i (length line) = Some (concat (map fst items'))" .
  with s items show ?case by (simp add: str_slice_adjacent)
qed

lemma scope_region_iter_ops:
  "scope_region_iter line last_str_index op ops = Some items \<Longrightarrow> map snd items = op # map snd ops"
  by (induction line last_str_index op ops arbitrary: items rule: scope_region_iter.induct)
     (auto split: option.splits)

lemma scope_region_iter_succeeds_iff:
  "is_char_boundary line last_str_index \<Longrightarrow>
     scope_region_iter line last_str_index op ops \<noteq> None \<longleftrightarrow> positions_ok line last_str_index ops"
  by (induction line last_str_index op ops rule: scope_region_iter.induct)
     (auto simp: str_slice_def is_char_boundary_le is_char_boundary_length split: option.splits)

text \<open>The pieces of a line concatenate to the line.\<close>

lemma scope_region_iterator_concat:
  "scope_region_iterator ops line = Some items \<Longrightarrow> concat (map fst items) = line"
proof -
  assume "scope_region_iterator ops line = Some items"
  then have "str_slice line 0 (length line) = Some (concat (map fst items))"
    by (simp add: scope_region_iterator_def scope_region_iter_concat)
  then show ?thesis by (simp add: str_slice_def is_char_boundary_0 is_char_boundary_length)
qed

lemma scope_region_iterator_ops:
  "scope_region_iterator ops line = Some items \<Longrightarrow> map snd items = Noop # map snd ops"
  by (simp add: scope_region_iterator_def scope_region_iter_ops)

text \<open>\<open>ScopeRegionIterator\<close> panics on a line exactly when the operation
  positions the tokenizer produced are not non-decreasing character boundaries of the
  line.\<close>

lemma scope_region_iterator_succeeds_iff:
  "scope_region_iterator ops line \<noteq> None \<longleftrightarrow> positions_ok line 0 ops"
  unfolding scope_region_iterator_def
  using scope_region_iter_succeeds_iff [OF is_char_boundary_0] .

end
