(* ===== verification/Demo_Engine.thy ===== *)
theory Demo_Engine
  imports Syntect
begin

text \<open>
  A small concrete instance of the syntect collaborators, used to evaluate the
  server's functions on concrete inputs (the witnesses of the theorems): a syntax
  set with a Go grammar (extension \<open>go\<close>), a Dockerfile grammar registered under
  the whole file name \<open>Dockerfile\<close>, a CMake grammar registered under
  \<open>CMakeLists.txt\<close> and \<open>cmake\<close>, a plain text grammar registered under
  \<open>txt\<close>, and a shell grammar registered under \<open>sh\<close> and \<open>bash\<close> and found from a
  \<open>#!/bin/sh\<close> first line; a tokenizer that opens the
  grammar's top-level scope on the first line and marks a leading \<open>package\<close>
  keyword; a highlighter with a keyword style; two themes.  Syntaxes are
  represented by their names and themes by their background colour.
\<close>

definition demo_find_by_extension :: "string \<Rightarrow> string option" where
  "demo_find_by_extension ext =
     (if ext = ''go'' then Some ''Go''
      else if ext = ''Dockerfile'' then Some ''Dockerfile''
      else if ext = ''CMakeLists.txt'' then Some ''CMake''
      else if ext = ''cmake'' then Some ''CMake''
      else if ext = ''txt'' then Some ''Plain Text''
      else if ext = ''sh'' \<or> ext = ''bash'' then Some ''Shell''
      else None)"

definition demo_file_extensions :: "string \<Rightarrow> string list" where
  "demo_file_extensions syn =
     (if syn = ''CMake'' then [''CMakeLists.txt'', ''cmake'']
      else if syn = ''Dockerfile'' then [''Dockerfile'']
      else if syn = ''Go'' then [''go'']
      else if syn = ''Plain Text'' then [''txt'']
      else if syn = ''Shell'' then [''sh'', ''bash'']
      else [])"

definition demo_find_by_first_line :: "string \<Rightarrow> string option" where
  "demo_find_by_first_line code = (if take 9 code = ''#!/bin/sh'' then Some ''Shell'' else None)"

definition demo_scope :: "string \<Rightarrow> string" where
  "demo_scope syn =
     (if syn = ''Go'' then ''source.go'' else if syn = ''Plain Text'' then ''text.plain''
      else ''source.other'')"

definition demo_parse_line ::
  "string \<times> nat \<Rightarrow> string \<Rightarrow> ((string \<times> nat) \<times> (nat \<times> scope_stack_op) list) option" where
  "demo_parse_line st line = (case st of (syn, n) \<Rightarrow>
     Some ((syn, Suc n),
           (if n = 0 then [(0, Push (demo_scope syn))] else [])
           @ (if take 7 line = ''package''
              then [(0, Push ''keyword.other.package.go''), (7, Pop 1)] else [])))"

definition demo_style :: style where
  "demo_style = \<lparr>foreground = \<lparr>color_r = 0x33, color_g = 0x33, color_b = 0x33, color_a = 0xFF\<rparr>,
                 background = color_white, font_style = 0\<rparr>"

definition demo_keyword_style :: style where
  "demo_keyword_style = \<lparr>foreground = \<lparr>color_r = 0xA7, color_g = 0x1D, color_b = 0x5D, color_a = 0xFF\<rparr>,
                         background = \<lparr>color_r = 0xF5, color_g = 0xF5, color_b = 0xF5, color_a = 0xFF\<rparr>,
                         font_style = 1\<rparr>"

definition demo_highlight :: "unit \<Rightarrow> string \<Rightarrow> (unit \<times> (style \<times> string) list) option" where
  "demo_highlight h line =
     Some ((), if take 7 line = ''package''
               then [(demo_keyword_style, take 7 line), (demo_style, drop 7 line)]
               else [(demo_style, line)])"

definition demo_themes :: "string \<Rightarrow> color option option" where
  "demo_themes name =
     (if name = ''InspiredGitHub'' then Some (Some color_white)
      else if name = ''Solarized (dark)''
      then Some (Some \<lparr>color_r = 0x00, color_g = 0x2B, color_b = 0x36, color_a = 0xFF\<rparr>)
      else None)"

definition demo_engine :: "(string, color option, string \<times> nat, unit) syntect" where
  "demo_engine =
     \<lparr>find_syntax_by_extension = demo_find_by_extension,
      find_syntax_by_first_line = demo_find_by_first_line,
      find_syntax_plain_text = ''Plain Text'',
      syntax_name = id,
      parse_state_new = (\<lambda>syn. (syn, 0)),
      parse_line = demo_parse_line,
      highlight_lines_new = (\<lambda>syn thm. ()),
      highlight_line = demo_highlight,
      theme_background = id,
      themes = demo_themes,
      theme_names = [''InspiredGitHub'', ''Solarized (dark)''],
      syntaxes = [''CMake'', ''Dockerfile'', ''Go'', ''Plain Text'', ''Shell''],
      file_extensions = demo_file_extensions\<rparr>"

end
