(* ===== verification/Resolver.thy ===== *)
theory Resolver
  imports Demo_Engine
begin

text \<open>
  The request and the language-resolution cascade: the \<open>Query\<close> struct and the
  part of \<open>highlight\<close> (src/src/main.rs) that picks a syntax definition and the
  \<open>is_plaintext\<close> flag.  \<open>resolve_syntax\<close> returns \<open>None\<close> for the early
  return \<open>json!({"error": "invalid extension"})\<close>.  The abstract specification
  \<open>resolver_spec\<close> states the cascade as the first successful lookup in an ordered
  list of lookups; the lemmas show the code implements it, that a whole file name is
  tried before the file's extension, that a non-empty path never fails (it degrades
  to plain text exactly when every lookup fails), that only the legacy path
  (empty \<open>filepath\<close>) can fail, and that the extension looked up is what follows
  the last dot of the file name.
\<close>

record query =
  extension :: string
  filepath :: string
  scopify :: bool
  theme :: string
  code :: string

text \<open>\<open>path.file_name().and_then(|n| n.to_str()).unwrap_or("")\<close> and the same for
  \<open>extension()\<close>; \<open>to_str\<close> cannot fail on a path made from a \<open>&str\<close>.\<close>

definition query_file_name :: "query \<Rightarrow> string" where
  "query_file_name q = (case path_file_name (filepath q) of Some n \<Rightarrow> n | None \<Rightarrow> '''')"

definition query_extension :: "query \<Rightarrow> string" where
  "query_extension q = (case path_extension (filepath q) of Some x \<Rightarrow> x | None \<Rightarrow> '''')"

definition resolve_syntax :: "('syn, 'thm, 'ps, 'hl) syntect \<Rightarrow> query \<Rightarrow> ('syn \<times> bool) option" where
  "resolve_syntax syntax_set q =
     (if filepath q = '''' then
        (case find_syntax_by_extension syntax_set (extension q) of
           Some v \<Rightarrow> Some (v, False)
         | None \<Rightarrow>
             (case find_syntax_by_first_line syntax_set (code q) of
                Some v \<Rightarrow> Some (v, False)
              | None \<Rightarrow> None))
      else
        (case find_syntax_by_extension syntax_set (query_file_name q) of
           Some v \<Rightarrow> Some (v, False)
         | None \<Rightarrow>
             (case find_syntax_by_extension syntax_set (query_extension q) of
                Some v \<Rightarrow> Some (v, False)
              | None \<Rightarrow>
                  (case find_syntax_by_first_line syntax_set (code q) of
                     Some v \<Rightarrow> Some (v, False)
                   | None \<Rightarrow> Some (find_syntax_plain_text syntax_set, True)))))"

section \<open>The abstract cascade\<close>

datatype lookup = By_extension string | By_first_line

fun run_lookup :: "('syn, 'thm, 'ps, 'hl) syntect \<Rightarrow> query \<Rightarrow> lookup \<Rightarrow> 'syn option" where
  "run_lookup ss q (By_extension x) = find_syntax_by_extension ss x"
| "run_lookup ss q By_first_line = find_syntax_by_first_line ss (code q)"

definition lookup_cascade :: "query \<Rightarrow> lookup list" where
  "lookup_cascade q =
     (if filepath q = '''' then [By_extension (extension q), By_first_line]
      else [By_extension (query_file_name q), By_extension (query_extension q), By_first_line])"

fun first_match :: "('syn, 'thm, 'ps, 'hl) syntect \<Rightarrow> query \<Rightarrow> lookup list \<Rightarrow> 'syn option" where
  "first_match ss q [] = None"
| "first_match ss q (l # ls) = (case run_lookup ss q l of Some v \<Rightarrow> Some v | None \<Rightarrow> first_match ss q ls)"

definition resolver_spec :: "('syn, 'thm, 'ps, 'hl) syntect \<Rightarrow> query \<Rightarrow> ('syn \<times> bool) option" where
  "resolver_spec ss q =
     (case first_match ss q (lookup_cascade q) of
        Some v \<Rightarrow> Some (v, False)
      | None \<Rightarrow> if filepath q = '''' then None else Some (find_syntax_plain_text ss, True))"

text \<open>Queries for the witnesses.\<close>

definition demo_query :: "string \<Rightarrow> string \<Rightarrow> string \<Rightarrow> query" where
  "demo_query ext path src = \<lparr>extension = ext, filepath = path, scopify = False,
                              theme = ''InspiredGitHub'', code = src\<rparr>"

section \<open>Lemmas\<close>

lemma first_match_None_iff: "first_match ss q ls = None \<longleftrightarrow> (\<forall>l \<in> set ls. run_lookup ss q l = None)"
  by (induction ls) (auto split: option.splits)

text \<open>C5. The code implements the cascade: the syntax chosen is the first successful
  lookup in the order whole file name, extension, first line (extension, first line on
  the legacy path); when none succeeds the legacy path fails and the other falls back to
  plain text with the plaintext flag set.\<close>

theorem resolve_syntax_refines_cascade: "resolve_syntax ss q = resolver_spec ss q"
  by (simp add: resolve_syntax_def resolver_spec_def lookup_cascade_def split: option.splits)

text \<open>C6. With a file path, a grammar registered under the whole file name wins over
  one registered under the file's extension (the \<open>Dockerfile\<close>, \<open>CMakeLists.txt\<close>
  case).\<close>

theorem resolve_file_name_first:
  assumes "filepath q \<noteq> ''''"
    and "find_syntax_by_extension ss (query_file_name q) = Some g"
  shows "resolve_syntax ss q = Some (g, False)"
  using assms by (simp add: resolve_syntax_def)

text \<open>C7. With a file path the resolver never fails: it returns plain text with the
  plaintext flag set exactly when the file name, the extension and the first line all
  fail to match, and otherwise a matched grammar with the flag clear.\<close>

theorem resolve_filepath_never_fails:
  assumes "filepath q \<noteq> ''''"
  shows "\<exists>g p. resolve_syntax ss q = Some (g, p)
           \<and> (p \<longleftrightarrow> find_syntax_by_extension ss (query_file_name q) = None
                   \<and> find_syntax_by_extension ss (query_extension q) = None
                   \<and> find_syntax_by_first_line ss (code q) = None)
           \<and> (p \<longrightarrow> g = find_syntax_plain_text ss)"
  using assms by (auto simp: resolve_syntax_def split: option.splits)

text \<open>C8. Without a file path (the legacy path) the resolver fails, and the request
  ends with the invalid-extension error, exactly when neither the extension nor the first
  line matches; it never reports plain text.\<close>

theorem resolve_legacy_error:
  assumes "filepath q = ''''"
  shows "(resolve_syntax ss q = None \<longleftrightarrow>
            find_syntax_by_extension ss (extension q) = None
            \<and> find_syntax_by_first_line ss (code q) = None)
         \<and> (\<forall>g p. resolve_syntax ss q = Some (g, p) \<longrightarrow> \<not> p)"
  using assms by (auto simp: resolve_syntax_def split: option.splits)

text \<open>C21. The file name and extension the resolver looks up: the file name has no
  \<open>/\<close>, and a non-empty extension is what follows the file name's last dot, after a
  non-empty stem (so \<open>.bashrc\<close> has none and \<open>archive.tar.gz\<close> has \<open>gz\<close>).\<close>

theorem query_extension_split:
  assumes "query_extension q \<noteq> ''''"
  shows "\<exists>stem. query_file_name q = stem @ ''.'' @ query_extension q \<and> stem \<noteq> []
           \<and> CHR ''.'' \<notin> set (query_extension q) \<and> CHR ''/'' \<notin> set (query_file_name q)"
proof -
  have x: "path_extension (filepath q) = Some (query_extension q)"
    using assms by (cases "path_extension (filepath q)") (simp_all add: query_extension_def)
  then obtain f where f: "path_file_name (filepath q) = Some f"
    by (cases "path_file_name (filepath q)") (simp_all add: path_extension_def)
  obtain before after where ba: "rsplit_file_at_dot f = (before, after)"
    by (cases "rsplit_file_at_dot f")
  from x f ba have "before \<noteq> None" and after: "after = Some (query_extension q)"
    by (simp_all add: path_extension_def split: if_splits)
  then obtain b where "before = Some b" by blast
  with ba after have r: "rsplit_file_at_dot f = (Some b, Some (query_extension q))" by simp
  have fn: "query_file_name q = f" using f by (simp add: query_file_name_def)
  note p = rsplit_file_at_dot_parts [OF r] path_file_name_no_slash [OF f]
  show ?thesis using p fn by metis
qed

text \<open>C31. A file path without a file name (\<open>/\<close>, \<open>.\<close>, a path ending in \<open>..\<close>):
  both the file name and the extension fall back to the empty string, so the resolver
  looks the empty string up as an extension (twice), then the first line, and
  otherwise answers plain text; it still never fails.\<close>

theorem resolve_no_file_name:
  assumes "filepath q \<noteq> ''''" and "path_file_name (filepath q) = None"
  shows "query_file_name q = '''' \<and> query_extension q = ''''
       \<and> resolve_syntax ss q =
           (case find_syntax_by_extension ss '''' of
              Some v \<Rightarrow> Some (v, False)
            | None \<Rightarrow>
                (case find_syntax_by_first_line ss (code q) of
                   Some v \<Rightarrow> Some (v, False)
                 | None \<Rightarrow> Some (find_syntax_plain_text ss, True)))"
proof -
  have n: "query_file_name q = ''''" and x: "query_extension q = ''''"
    using assms(2) by (simp_all add: query_file_name_def query_extension_def path_extension_def)
  with assms(1) show ?thesis
    by (simp add: resolve_syntax_def split: option.split)
qed

section \<open>Witnesses\<close>

theorem resolve_file_name_first_witness:
  "filepath (demo_query '''' ''build/CMakeLists.txt'' ''x'') \<noteq> ''''
   \<and> find_syntax_by_extension demo_engine (query_file_name (demo_query '''' ''build/CMakeLists.txt'' ''x''))
       = Some ''CMake''
   \<and> find_syntax_by_extension demo_engine (query_extension (demo_query '''' ''build/CMakeLists.txt'' ''x''))
       = Some ''Plain Text''
   \<and> resolve_syntax demo_engine (demo_query '''' ''build/CMakeLists.txt'' ''x'') = Some (''CMake'', False)"
proof -
  have p: "filepath (demo_query '''' ''build/CMakeLists.txt'' ''x'') \<noteq> ''''"
    by (simp add: demo_query_def)
  have n: "find_syntax_by_extension demo_engine (query_file_name (demo_query '''' ''build/CMakeLists.txt'' ''x''))
       = Some ''CMake''"
    by (simp add: demo_query_def query_file_name_def path_file_name_def path_components_def
        demo_engine_def demo_find_by_extension_def)
  have x: "find_syntax_by_extension demo_engine (query_extension (demo_query '''' ''build/CMakeLists.txt'' ''x''))
       = Some ''Plain Text''"
    by (simp add: demo_query_def query_extension_def path_extension_def path_file_name_def
        path_components_def rsplit_file_at_dot_def demo_engine_def demo_find_by_extension_def)
  from p n x resolve_file_name_first [OF p n] show ?thesis by simp
qed

theorem resolve_filepath_never_fails_witness:
  "filepath (demo_query '''' ''a.b.c'' ''x'') \<noteq> ''''
   \<and> resolve_syntax demo_engine (demo_query '''' ''a.b.c'' ''x'') = Some (''Plain Text'', True)"
proof -
  have p: "filepath (demo_query '''' ''a.b.c'' ''x'') \<noteq> ''''" by (simp add: demo_query_def)
  have l: "find_syntax_by_extension demo_engine (query_file_name (demo_query '''' ''a.b.c'' ''x'')) = None
         \<and> find_syntax_by_extension demo_engine (query_extension (demo_query '''' ''a.b.c'' ''x'')) = None
         \<and> find_syntax_by_first_line demo_engine (code (demo_query '''' ''a.b.c'' ''x'')) = None"
    by (simp add: demo_query_def query_file_name_def query_extension_def path_extension_def
        path_file_name_def path_components_def rsplit_file_at_dot_def demo_engine_def
        demo_find_by_extension_def demo_find_by_first_line_def)
  from resolve_filepath_never_fails [OF p, of demo_engine] l p show ?thesis
    by (auto simp: demo_engine_def)
qed

theorem resolve_legacy_error_witness:
  "filepath (demo_query ''nonexistent_ext'' '''' ''???'') = ''''
   \<and> resolve_syntax demo_engine (demo_query ''nonexistent_ext'' '''' ''???'') = None"
proof -
  have p: "filepath (demo_query ''nonexistent_ext'' '''' ''???'') = ''''" by (simp add: demo_query_def)
  have l: "find_syntax_by_extension demo_engine (extension (demo_query ''nonexistent_ext'' '''' ''???'')) = None
         \<and> find_syntax_by_first_line demo_engine (code (demo_query ''nonexistent_ext'' '''' ''???'')) = None"
    by (simp add: demo_query_def demo_engine_def demo_find_by_extension_def demo_find_by_first_line_def)
  from resolve_legacy_error [OF p, of demo_engine] l p show ?thesis by simp
qed

theorem query_extension_split_witness:
  "query_file_name (demo_query '''' ''src/archive.tar.gz'' '''') = ''archive.tar.gz''
   \<and> query_extension (demo_query '''' ''src/archive.tar.gz'' '''') = ''gz''"
proof -
  have x: "query_extension (demo_query '''' ''src/archive.tar.gz'' '''') = ''gz''"
    by (simp add: query_extension_def demo_query_def path_extension_def path_file_name_def
        path_components_def rsplit_file_at_dot_def)
  have "query_extension (demo_query '''' ''src/archive.tar.gz'' '''') \<noteq> ''''" using x by simp
  from query_extension_split [OF this] x show ?thesis
    by (simp add: query_file_name_def demo_query_def path_file_name_def path_components_def)
qed

theorem resolve_no_file_name_witness:
  "path_file_name ''src/..'' = None
   \<and> resolve_syntax demo_engine (demo_query '''' ''src/..'' ''#!/bin/sh\<newline>'') = Some (''Shell'', False)"
proof -
  have p: "path_file_name (filepath (demo_query '''' ''src/..'' ''#!/bin/sh\<newline>'')) = None"
    by (simp add: demo_query_def path_file_name_def path_components_def)
  have f: "filepath (demo_query '''' ''src/..'' ''#!/bin/sh\<newline>'') \<noteq> ''''"
    by (simp add: demo_query_def)
  from resolve_no_file_name [OF f p, of demo_engine] p show ?thesis
    by (simp add: demo_query_def demo_engine_def demo_find_by_extension_def demo_find_by_first_line_def)
qed

end
