(* ===== verification/Lines.thy ===== *)
theory Lines
  imports Rust_Str
begin

text \<open>
  \<open>LinesWithEndings\<close> (src/src/main.rs, the iterator at the end of the file): the
  line splitter that both rendering paths run over the snippet.  The iterator's
  state is the rest of the input; \<open>lines_next\<close> is its \<open>next\<close>, and
  \<open>lines_with_endings\<close> is the sequence a \<open>for\<close> loop over
  \<open>LinesWithEndings::from(s)\<close> visits.  The lemmas show that the lines
  concatenate back to the input, that each line is non-empty, that a newline
  occurs in a line only as its last byte and ends every line but the last, and
  the number of lines.
\<close>

definition lines_next :: "string \<Rightarrow> (string \<times> string) option" where
  "lines_next input =
     (if input = [] then None
      else (let split = (case str_find CHR ''\<newline>'' input of
                           Some i \<Rightarrow> i + 1
                         | None \<Rightarrow> length input)
            in Some (str_split_at input split)))"

function lines_with_endings :: "string \<Rightarrow> string list" where
  "lines_with_endings input =
     (case lines_next input of
        None \<Rightarrow> []
      | Some (line, rest) \<Rightarrow> line # lines_with_endings rest)"
  by pat_completeness auto
termination
  by (relation "measure length")
     (auto simp: lines_next_def str_split_at_def split: if_splits option.splits)

text \<open>Reference splitter: cut the input at every newline and put the newline back
  on each piece but the last; the last piece is a line only when it is non-empty.\<close>

definition lines_spec :: "string \<Rightarrow> string list" where
  "lines_spec s =
     (let ps = split_on CHR ''\<newline>'' s
      in map (\<lambda>p. p @ ''\<newline>'') (butlast ps) @ (if last ps = [] then [] else [last ps]))"

text \<open>The \<open>for\<close> loop over \<open>LinesWithEndings::from(s)\<close> as Rust runs it: call
  \<open>next\<close> until it returns \<open>None\<close>, handing each line to the body (here: collecting
  it).  Nothing in the loop itself bounds the number of calls, so it is a partial
  function; \<open>None\<close> would mean that the loop never ends.\<close>

partial_function (option) lines_loop :: "string \<Rightarrow> string list option" where
  "lines_loop input =
     (case lines_next input of
        None \<Rightarrow> Some []
      | Some (line, rest) \<Rightarrow> Option.bind (lines_loop rest) (\<lambda>lines. Some (line # lines)))"

declare lines_with_endings.simps [simp del]

section \<open>Unfolding the iterator one byte at a time\<close>

lemma lines_with_endings_Nil [simp]: "lines_with_endings [] = []"
  by (simp add: lines_with_endings.simps lines_next_def)

lemma lines_with_endings_no_newline:
  "CHR ''\<newline>'' \<notin> set s \<Longrightarrow> s \<noteq> [] \<Longrightarrow> lines_with_endings s = [s]"
  by (simp add: lines_with_endings.simps [of s] lines_next_def str_split_at_def
      str_find_None_iff [THEN iffD2])

lemma lines_with_endings_newline_first:
  "lines_with_endings (CHR ''\<newline>'' # s) = [CHR ''\<newline>''] # lines_with_endings s"
  by (simp add: lines_with_endings.simps [of "CHR ''\<newline>'' # s"] lines_next_def
      str_split_at_def)

lemma lines_with_endings_Cons_other:
  assumes "c \<noteq> CHR ''\<newline>''"
  shows "lines_with_endings (c # s) =
           (case lines_with_endings s of [] \<Rightarrow> [[c]] | l # ls \<Rightarrow> (c # l) # ls)"
proof (cases "str_find CHR ''\<newline>'' s")
  case None
  then have "CHR ''\<newline>'' \<notin> set s" by (simp add: str_find_None_iff)
  with assms show ?thesis
    by (cases "s = []") (simp_all add: lines_with_endings_no_newline)
next
  case (Some i)
  then have "s \<noteq> []" by (cases s) auto
  with Some have s: "lines_with_endings s = take (Suc i) s # lines_with_endings (drop (Suc i) s)"
    by (simp add: lines_with_endings.simps [of s] lines_next_def str_split_at_def)
  have "lines_with_endings (c # s) = take (Suc (Suc i)) (c # s) # lines_with_endings (drop (Suc i) s)"
    using Some assms by (simp add: lines_with_endings.simps [of "c # s"] lines_next_def
        str_split_at_def)
  with s show ?thesis by simp
qed

lemma lines_with_endings_Cons:
  "lines_with_endings (c # s) =
     (if c = CHR ''\<newline>'' then [c] # lines_with_endings s
      else (case lines_with_endings s of [] \<Rightarrow> [[c]] | l # ls \<Rightarrow> (c # l) # ls))"
  by (simp add: lines_with_endings_newline_first lines_with_endings_Cons_other)

section \<open>Properties of the split\<close>

lemma lines_with_endings_eq_Nil_iff: "lines_with_endings s = [] \<longleftrightarrow> s = []"
  by (cases s) (auto simp: lines_with_endings_Cons split: list.splits)

lemma concat_lines_with_endings: "concat (lines_with_endings s) = s"
  by (induction s) (auto simp: lines_with_endings_Cons split: list.splits)

lemma lines_with_endings_nonempty: "l \<in> set (lines_with_endings s) \<Longrightarrow> l \<noteq> []"
  by (induction s arbitrary: l) (auto simp: lines_with_endings_Cons split: list.splits if_splits)

lemma lines_with_endings_newline_last:
  "l \<in> set (lines_with_endings s) \<Longrightarrow> CHR ''\<newline>'' \<notin> set (butlast l)"
proof (induction s arbitrary: l)
  case Nil
  then show ?case by simp
next
  case (Cons c s)
  note IH = Cons.IH and prems = Cons.prems
  show ?case
  proof (cases "c = CHR ''\<newline>''")
    case True
    with IH prems show ?thesis by (auto simp: lines_with_endings_Cons)
  next
    case False
    show ?thesis
    proof (cases "lines_with_endings s")
      case Nil
      with prems False show ?thesis by (simp add: lines_with_endings_Cons)
    next
      case (Cons l' ls)
      have "l' \<noteq> []" using lines_with_endings_nonempty [of l' s] Cons by simp
      with Cons IH prems False show ?thesis
        by (auto simp: lines_with_endings_Cons split: list.splits)
    qed
  qed
qed

lemma lines_with_endings_ends_newline:
  "\<forall>l \<in> set (butlast (lines_with_endings s)). last l = CHR ''\<newline>''"
proof (induction s)
  case Nil
  then show ?case by simp
next
  case (Cons c s)
  note IH = Cons.IH
  show ?case
  proof (cases "lines_with_endings s")
    case Nil
    then show ?thesis by (simp add: lines_with_endings_Cons)
  next
    case (Cons l' ls)
    have "l' \<noteq> []" using lines_with_endings_nonempty [of l' s] Cons by simp
    with Cons IH show ?thesis
      by (auto simp: lines_with_endings_Cons)
  qed
qed

lemma length_lines_with_endings:
  "length (lines_with_endings s) =
     count_list s CHR ''\<newline>'' + (if s \<noteq> [] \<and> last s \<noteq> CHR ''\<newline>'' then 1 else 0)"
  by (induction s) (auto simp: lines_with_endings_Cons lines_with_endings_eq_Nil_iff
      split: list.splits)


lemma lines_spec_Cons:
  "lines_spec (c # s) =
     (if c = CHR ''\<newline>'' then [c] # lines_spec s
      else (case lines_spec s of [] \<Rightarrow> [[c]] | l # ls \<Rightarrow> (c # l) # ls))"
  by (cases "split_on CHR ''\<newline>'' s") (auto simp: lines_spec_def Let_def split: list.splits)

text \<open>C19. The iterator splits exactly like the reference splitter: it yields each
  newline-terminated line with its newline, then the rest after the last newline when
  that rest is non-empty, and never a line of length zero.\<close>

theorem lines_with_endings_eq_spec: "lines_with_endings s = lines_spec s"
proof (induction s)
  case Nil
  show ?case by (simp add: lines_spec_def)
next
  case (Cons c s)
  then show ?case by (simp add: lines_with_endings_Cons lines_spec_Cons)
qed

text \<open>C20. The lines of \<open>LinesWithEndings\<close> concatenate to the input, none is empty,
  a newline occurs in a line only as its last byte and ends every line but the last,
  and there is one line per newline plus one for a non-empty unterminated tail.\<close>

theorem lines_with_endings_structure:
  "concat (lines_with_endings s) = s
   \<and> (\<forall>l \<in> set (lines_with_endings s). l \<noteq> [] \<and> CHR ''\<newline>'' \<notin> set (butlast l))
   \<and> (\<forall>l \<in> set (butlast (lines_with_endings s)). last l = CHR ''\<newline>'')
   \<and> length (lines_with_endings s) =
       count_list s CHR ''\<newline>'' + (if s \<noteq> [] \<and> last s \<noteq> CHR ''\<newline>'' then 1 else 0)"
  using concat_lines_with_endings lines_with_endings_nonempty lines_with_endings_newline_last
    lines_with_endings_ends_newline length_lines_with_endings by blast

text \<open>C23. The \<open>for\<close> loop over \<open>LinesWithEndings\<close> terminates on every input, after
  visiting exactly the lines of \<open>lines_with_endings\<close> (so the loops of both rendering
  paths may be modelled as recursion over that list), and it calls \<open>next\<close> at most
  once per byte of the input plus once more.\<close>

theorem lines_loop_terminates:
  "lines_loop s = Some (lines_with_endings s) \<and> length (lines_with_endings s) \<le> length s"
proof
  show "lines_loop s = Some (lines_with_endings s)"
  proof (induction s rule: lines_with_endings.induct)
    case (1 input)
    show ?case
    proof (cases "lines_next input")
      case None
      then show ?thesis
        by (simp add: lines_loop.simps lines_with_endings.simps [of input])
    next
      case (Some p)
      obtain line rest where p: "p = (line, rest)" by (cases p)
      with Some "1.IH" show ?thesis
        by (simp add: lines_loop.simps lines_with_endings.simps [of input])
    qed
  qed
next
  show "length (lines_with_endings s) \<le> length s"
    using length_le_concat [of "lines_with_endings s"] lines_with_endings_nonempty [of _ s]
    by (simp add: concat_lines_with_endings)
qed

section \<open>Witnesses\<close>

theorem lines_with_endings_structure_witness:
  "lines_with_endings ''ab\<newline>\<newline>c'' = [''ab\<newline>'', ''\<newline>'', ''c'']
   \<and> length (lines_with_endings ''ab\<newline>\<newline>c'') = 3"
  using lines_with_endings_structure [of "''ab\<newline>\<newline>c''"]
  by (simp add: lines_with_endings_Cons)

theorem lines_loop_terminates_witness:
  "lines_loop ''a\<newline>b'' = Some [''a\<newline>'', ''b'']"
  using lines_loop_terminates [of "''a\<newline>b''"] by (simp add: lines_with_endings_Cons)

end
