(* ===== verification/Html.thy ===== *)
theory Html
  imports Lines Demo_Engine
begin

unbundle bit_operations_syntax

text \<open>
  The HTML renderer.  \<open>highlighted_snippet_for_string_newlines\<close> (src/src/main.rs)
  writes a \<open><pre>\<close> element carrying the theme's background colour (white when the
  theme has none), then, line by line, the spans syntect's \<open>styles_to_coloured_html\<close>
  makes of the highlighter's styled pieces with \<open>IncludeBackground::IfDifferent\<close> of
  that colour, then \<open></pre>\<close>.  The syntect parts are modelled as syntect defines
  them: the colour formatting (\<open>{:02x}\<close> of each byte, alpha only when not opaque),
  the span writer, and the HTML escaper \<open>Escape\<close>, which copies unescaped runs as
  slices between the special bytes.  Beside them stand reference definitions used by
  the lemmas: per-character escaping, unescaping, hex parsing and the text content of
  an HTML string (tags removed, entities decoded).  The lemmas show the escaper equals
  per-character escaping, is tag-safe and invertible, that colour bytes round-trip,
  that spans elide a background equal to the container's, and that the text of a
  rendered snippet is the snippet.
\<close>

datatype include_background = Yes | No | IfDifferent color

section \<open>Colours\<close>

text \<open>A lower-case hexadecimal digit, for \<open>n < 16\<close> (\<open>b'0' + n\<close> below ten,
  \<open>b'a' + n - 10\<close> above, as \<open>core::fmt::LowerHex\<close> writes it).\<close>

definition hex_digit :: "nat \<Rightarrow> char" where
  "hex_digit n = ''0123456789abcdef'' ! n"

text \<open>\<open>format!("{:02x}", b)\<close>: the high and the low nibble of the byte.\<close>

definition hex2 :: "u8 \<Rightarrow> string" where
  "hex2 w = [hex_digit (unat (drop_bit 4 w)), hex_digit (unat (take_bit 4 w))]"

definition write_css_color :: "color \<Rightarrow> string" where
  "write_css_color c =
     (if color_a c \<noteq> 0xFF
      then ''#'' @ hex2 (color_r c) @ hex2 (color_g c) @ hex2 (color_b c) @ hex2 (color_a c)
      else ''#'' @ hex2 (color_r c) @ hex2 (color_g c) @ hex2 (color_b c))"

section \<open>Escaping\<close>

definition escape_entity :: "char \<Rightarrow> string option" where
  "escape_entity ch =
     (if ch = CHR ''>'' then Some ''&gt;''
      else if ch = CHR ''<'' then Some ''&lt;''
      else if ch = CHR ''&'' then Some ''&amp;''
      else if ch = CHR 0x27 then Some ''&#39;''
      else if ch = CHR 0x22 then Some ''&quot;''
      else None)"

text \<open>\<open>impl Display for Escape\<close>: \<open>last\<close> is the start of the run not yet written,
  \<open>i\<close> the byte being looked at.\<close>

function escape_loop :: "string \<Rightarrow> nat \<Rightarrow> nat \<Rightarrow> string \<Rightarrow> string" where
  "escape_loop s last_pos i out =
     (if i < length s then
        (case escape_entity (s ! i) of
           Some ent \<Rightarrow> escape_loop s (Suc i) (Suc i) (out @ take (i - last_pos) (drop last_pos s) @ ent)
         | None \<Rightarrow> escape_loop s last_pos (Suc i) out)
      else if last_pos < length s then out @ drop last_pos s else out)"
  by pat_completeness auto
termination
  by (relation "measure (\<lambda>(s, last_pos, i, out). length s - i)") auto

definition escape_html :: "string \<Rightarrow> string" where
  "escape_html s = escape_loop s 0 0 []"

section \<open>Spans\<close>

text \<open>\<open>styles_to_coloured_html\<close>: one \<open>span\<close> per styled piece; the background is
  written when \<open>IncludeBackground\<close> asks for it (for \<open>IfDifferent c\<close>: when the
  piece's background is not \<open>c\<close>), then underline (\<open>FontStyle\<close> bit 2), bold (bit 1),
  italic (bit 4), the foreground colour and the escaped text.\<close>

fun styles_to_coloured_html :: "(style \<times> string) list \<Rightarrow> include_background \<Rightarrow> string" where
  "styles_to_coloured_html [] bg = []"
| \<open>styles_to_coloured_html ((style, text) # v) bg =
     ''<span style="''
     @ (if (case bg of Yes \<Rightarrow> True | No \<Rightarrow> False | IfDifferent c \<Rightarrow> background style \<noteq> c)
        then ''background-color:'' @ write_css_color (background style) @ '';'' else [])
     @ (if font_style style AND 2 \<noteq> 0 then ''text-decoration:underline;'' else [])
     @ (if font_style style AND 1 \<noteq> 0 then ''font-weight:bold;'' else [])
     @ (if font_style style AND 4 \<noteq> 0 then ''font-style:italic;'' else [])
     @ ''color:'' @ write_css_color (foreground style) @ '';">'' @ escape_html text @ ''</span>''
     @ styles_to_coloured_html v bg\<close>

section \<open>The snippet\<close>

text \<open>\<open>write!(output, "<pre style=\"background-color:#{:02x}{:02x}{:02x};\">\n", ...)\<close>\<close>

definition pre_open :: "color \<Rightarrow> string" where
  \<open>pre_open c = ''<pre style="background-color:#'' @ hex2 (color_r c) @ hex2 (color_g c)
                 @ hex2 (color_b c) @ '';">'' @ ''\<newline>''\<close>

text \<open>\<open>for line in LinesWithEndings::from(s) { let regions = highlighter.highlight(&line);
  output.push_str(&styles_to_coloured_html(&regions[..], IncludeBackground::IfDifferent(c))); }\<close>\<close>

fun highlight_lines_loop ::
  "('syn, 'thm, 'ps, 'hl) syntect \<Rightarrow> 'hl \<Rightarrow> color \<Rightarrow> string \<Rightarrow> string list \<Rightarrow> string option" where
  "highlight_lines_loop e highlighter c output [] = Some output"
| "highlight_lines_loop e highlighter c output (line # lines) =
     (case highlight_line e highlighter line of
        None \<Rightarrow> None
      | Some (highlighter', regions) \<Rightarrow>
          highlight_lines_loop e highlighter' c
            (output @ styles_to_coloured_html regions (IfDifferent c)) lines)"

definition highlighted_snippet_for_string_newlines ::
  "('syn, 'thm, 'ps, 'hl) syntect \<Rightarrow> string \<Rightarrow> 'syn \<Rightarrow> 'thm \<Rightarrow> string option" where
  "highlighted_snippet_for_string_newlines e s syntax theme =
     (let highlighter = highlight_lines_new e syntax theme;
          c = (case theme_background e theme of Some c \<Rightarrow> c | None \<Rightarrow> color_white)
      in map_option (\<lambda>output. output @ ''</pre>'')
           (highlight_lines_loop e highlighter c (pre_open c) (lines_with_endings s)))"

section \<open>Reference definitions\<close>

definition escape_char :: "char \<Rightarrow> string" where
  "escape_char ch = (case escape_entity ch of Some ent \<Rightarrow> ent | None \<Rightarrow> [ch])"

definition hex_value :: "char \<Rightarrow> nat" where
  "hex_value ch = (if of_char ch < (58::nat) then of_char ch - 48 else of_char ch - 87)"

definition parse_hex2 :: "string \<Rightarrow> u8" where
  "parse_hex2 s = word_of_nat (16 * hex_value (s ! 0) + hex_value (s ! 1))"

function unescape_html :: "string \<Rightarrow> string" where
  "unescape_html s =
     (if s = [] then []
      else if take 4 s = ''&gt;'' then CHR ''>'' # unescape_html (drop 4 s)
      else if take 4 s = ''&lt;'' then CHR ''<'' # unescape_html (drop 4 s)
      else if take 5 s = ''&amp;'' then CHR ''&'' # unescape_html (drop 5 s)
      else if take 5 s = ''&#39;'' then CHR 0x27 # unescape_html (drop 5 s)
      else if take 6 s = ''&quot;'' then CHR 0x22 # unescape_html (drop 6 s)
      else hd s # unescape_html (tl s))"
  by pat_completeness auto
termination
  by (relation "measure length") auto

text \<open>The text of an HTML string: tags dropped (\<open>in_tag\<close> is true between \<open><\<close> and
  \<open>>\<close>), then entities decoded.\<close>

fun strip_tags :: "string \<Rightarrow> bool \<Rightarrow> string" where
  "strip_tags [] in_tag = []"
| "strip_tags (c # s) in_tag =
     (if in_tag then strip_tags s (c \<noteq> CHR ''>'')
      else if c = CHR ''<'' then strip_tags s True
      else c # strip_tags s False)"

definition html_text :: "string \<Rightarrow> string" where
  "html_text h = unescape_html (strip_tags h False)"


text \<open>The background colour a reader finds in the opening \<open><pre>\<close> tag: the three
  hex pairs after \<open>background-color:#\<close>.\<close>

definition pre_background :: "string \<Rightarrow> u8 \<times> u8 \<times> u8" where
  \<open>pre_background h =
     (let x = drop (length ''<pre style="background-color:#'') h
      in (parse_hex2 x, parse_hex2 (drop 2 x), parse_hex2 (drop 4 x)))\<close>

text \<open>The tag names of an HTML string, in order, as a browser's tokenizer finds them:
  each \<open><\<close> opens a tag whose name runs to the first space or \<open>>\<close>, and the tag
  ends at the next \<open>>\<close>.\<close>

function html_tags :: "string \<Rightarrow> string list" where
  "html_tags [] = []"
| "html_tags (c # s) =
     (if c = CHR ''<''
      then takeWhile (\<lambda>x. x \<noteq> CHR '' '' \<and> x \<noteq> CHR ''>'') s
           # html_tags (drop 1 (dropWhile (\<lambda>x. x \<noteq> CHR ''>'') s))
      else html_tags s)"
  by pat_completeness auto
termination
  by (relation "measure length")
     (auto intro: le_imp_less_Suc order.trans [OF diff_le_self length_dropWhile_le])

section \<open>Lemmas\<close>

declare unescape_html.simps [simp del] escape_loop.simps [simp del]

lemma hex_digit_value: "n < 16 \<Longrightarrow> hex_value (hex_digit n) = n"
proof -
  have "\<forall>n < 16. hex_value (hex_digit n) = n"
    by (simp add: hex_digit_def hex_value_def All_less_Suc numeral_eq_Suc)
  then show "n < 16 \<Longrightarrow> hex_value (hex_digit n) = n" by blast
qed

lemma hex_digit_set: "n < 16 \<Longrightarrow> hex_digit n \<in> set ''0123456789abcdef''"
  unfolding hex_digit_def by (rule nth_mem) simp

lemma escape_plain: "\<forall>x \<in> set xs. escape_entity x = None \<Longrightarrow> concat (map escape_char xs) = xs"
  by (induction xs) (auto simp: escape_char_def)

lemma nibbles:
  "unat (drop_bit 4 w) = unat (w::u8) div 16" "unat (take_bit 4 w) = unat w mod 16"
  "unat w div 16 < 16" "unat w mod 16 < 16"
proof -
  show "unat (drop_bit 4 w) = unat w div 16" by (simp add: drop_bit_eq_div unat_div)
  show "unat (take_bit 4 w) = unat w mod 16" by (simp add: take_bit_eq_mod unat_mod)
  have "unat w < 256" using unsigned_less [of w] by simp
  then show "unat w div 16 < 16" by simp
  show "unat w mod 16 < 16" by simp
qed

text \<open>A colour byte written with \<open>{:02x}\<close> reads back as the same byte.\<close>

lemma hex2_roundtrip: "parse_hex2 (hex2 w) = w"
proof -
  have "16 * (unat w div 16) + unat w mod 16 = unat w" by simp
  then show ?thesis
    by (simp add: parse_hex2_def hex2_def nibbles hex_digit_value)
qed

text \<open>A colour byte is written as exactly two lower-case hexadecimal digits.\<close>

lemma hex2_shape: "length (hex2 w) = 2 \<and> set (hex2 w) \<subseteq> set ''0123456789abcdef''"
  using hex_digit_set nibbles by (simp add: hex2_def)

lemma escape_loop_eq:
  "last_pos \<le> i \<Longrightarrow> i \<le> length s \<Longrightarrow>
   (\<forall>j. last_pos \<le> j \<and> j < i \<longrightarrow> escape_entity (s ! j) = None) \<Longrightarrow>
   escape_loop s last_pos i out = out @ concat (map escape_char (drop last_pos s))"
proof (induction s last_pos i out rule: escape_loop.induct)
  case (1 s last_pos i out)
  show ?case
  proof (cases "i < length s")
    case False
    with "1.prems" have i: "i = length s" by simp
    have "\<forall>x \<in> set (drop last_pos s). escape_entity x = None"
      using "1.prems" i by (auto simp: in_set_conv_nth)
    then have "concat (map escape_char (drop last_pos s)) = drop last_pos s"
      by (rule escape_plain)
    moreover from False have "escape_loop s last_pos i out
        = (if last_pos < length s then out @ drop last_pos s else out)"
      by (simp add: escape_loop.simps [of s last_pos i])
    ultimately show ?thesis by simp
  next
    case True
    show ?thesis
    proof (cases "escape_entity (s ! i)")
      case None
      have "escape_loop s last_pos i out = escape_loop s last_pos (Suc i) out"
        using True None by (simp add: escape_loop.simps [of s last_pos i])
      also have "\<dots> = out @ concat (map escape_char (drop last_pos s))"
        using "1.IH"(1) [OF True None] "1.prems" True None less_Suc_eq by auto
      finally show ?thesis .
    next
      case (Some ent)
      let ?out' = "out @ take (i - last_pos) (drop last_pos s) @ ent"
      have "escape_loop s last_pos i out = escape_loop s (Suc i) (Suc i) ?out'"
        using True Some by (simp add: escape_loop.simps [of s last_pos i])
      also have "\<dots> = ?out' @ concat (map escape_char (drop (Suc i) s))"
      proof -
        have "\<forall>j. Suc i \<le> j \<and> j < Suc i \<longrightarrow> escape_entity (s ! j) = None" by auto
        with "1.IH"(2) [OF True Some] True show ?thesis by simp
      qed
      also have "\<dots> = out @ concat (map escape_char (drop last_pos s))"
      proof -
        have split: "drop last_pos s = take (i - last_pos) (drop last_pos s) @ s ! i # drop (Suc i) s"
          using "1.prems"(1) True
          by (metis Cons_nth_drop_Suc append_take_drop_id drop_drop le_add_diff_inverse2)
        have plain: "concat (map escape_char (take (i - last_pos) (drop last_pos s)))
            = take (i - last_pos) (drop last_pos s)"
        proof (rule escape_plain)
          show "\<forall>x \<in> set (take (i - last_pos) (drop last_pos s)). escape_entity x = None"
            using "1.prems" by (auto simp: in_set_conv_nth)
        qed
        show ?thesis
          by (subst split) (simp add: plain escape_char_def Some)
      qed
      finally show ?thesis .
    qed
  qed
qed

text \<open>syntect's escaper, which copies the runs between special bytes as slices, produces the same text as escaping every byte on its own.\<close>

lemma escape_html_eq: "escape_html s = concat (map escape_char s)"
  unfolding escape_html_def by (simp add: escape_loop_eq)

lemma escape_char_safe:
  "set (escape_char c) \<inter> {CHR ''<'', CHR ''>'', CHR 0x22, CHR 0x27} = {}"
  by (auto simp: escape_char_def escape_entity_def split: if_splits)

text \<open>Escaped text contains no \<open><\<close>, \<open>>\<close>, double quote or single quote, so a code snippet cannot open or close a tag or an attribute in the output.\<close>

lemma escape_html_safe:
  "set (escape_html s) \<inter> {CHR ''<'', CHR ''>'', CHR 0x22, CHR 0x27} = {}"
  using escape_char_safe by (fastforce simp: escape_html_eq)

lemma unescape_entities:
  "unescape_html (CHR ''&'' # CHR ''g'' # CHR ''t'' # CHR '';'' # t) = CHR ''>'' # unescape_html t"
  "unescape_html (CHR ''&'' # CHR ''l'' # CHR ''t'' # CHR '';'' # t) = CHR ''<'' # unescape_html t"
  "unescape_html (CHR ''&'' # CHR ''a'' # CHR ''m'' # CHR ''p'' # CHR '';'' # t) = CHR ''&'' # unescape_html t"
  "unescape_html (CHR ''&'' # CHR ''#'' # CHR ''3'' # CHR ''9'' # CHR '';'' # t) = CHR 0x27 # unescape_html t"
  "unescape_html (CHR ''&'' # CHR ''q'' # CHR ''u'' # CHR ''o'' # CHR ''t'' # CHR '';'' # t)
     = CHR 0x22 # unescape_html t"
  by (simp_all add: unescape_html.simps [of "CHR ''&'' # _"])

lemma unescape_plain: "c \<noteq> CHR ''&'' \<Longrightarrow> unescape_html (c # t) = c # unescape_html t"
  by (simp add: unescape_html.simps [of "c # t"])

lemma unescape_escape_char: "unescape_html (escape_char c @ t) = c # unescape_html t"
  by (auto simp: escape_char_def escape_entity_def unescape_entities unescape_plain)

lemma unescape_escape_concat: "unescape_html (concat (map escape_char s) @ t) = s @ unescape_html t"
  by (induction s) (simp_all add: unescape_escape_char)

text \<open>Escaping loses nothing: decoding the entities of escaped text gives the text back.\<close>

lemma unescape_escape_html: "unescape_html (escape_html s) = s"
  using unescape_escape_concat [of s "[]"] by (simp add: escape_html_eq unescape_html.simps)

lemma strip_text: "CHR ''<'' \<notin> set t \<Longrightarrow> strip_tags (t @ r) False = t @ strip_tags r False"
  by (induction t) auto

lemma strip_in_tag: "CHR ''>'' \<notin> set b \<Longrightarrow> strip_tags (b @ r) True = strip_tags r True"
  by (induction b) auto

lemma hex2_no_gt: "CHR ''>'' \<notin> set (hex2 w)"
  using hex2_shape by fastforce

lemma css_color_no_gt: "CHR ''>'' \<notin> set (write_css_color c)"
  by (simp add: write_css_color_def hex2_no_gt)

lemma escape_html_no_lt: "CHR ''<'' \<notin> set (escape_html t)"
  using escape_html_safe [of t] by blast

lemma strip_span:
  "strip_tags (styles_to_coloured_html (p # v) bg @ r) False
     = escape_html (snd p) @ strip_tags (styles_to_coloured_html v bg @ r) False"
  by (cases p) (simp add: strip_in_tag css_color_no_gt strip_text escape_html_no_lt split: if_split)

lemma strip_spans:
  "strip_tags (styles_to_coloured_html v bg @ r) False
     = concat (map (\<lambda>p. escape_html (snd p)) v) @ strip_tags r False"
  by (induction v) (simp_all add: strip_span del: styles_to_coloured_html.simps(2))

lemma strip_pre_open: "strip_tags (pre_open c @ r) False = CHR ''\<newline>'' # strip_tags r False"
  by (simp add: pre_open_def strip_in_tag hex2_no_gt)

text \<open>A span states a background colour exactly when its background differs from the container's background (\<open>IncludeBackground::IfDifferent\<close>).\<close>

lemma span_background_elision:
  \<open>prefix ''<span style="background-color:'' (styles_to_coloured_html [(st, t)] (IfDifferent c))
     \<longleftrightarrow> background st \<noteq> c\<close>
  by simp

lemma highlight_lines_loop_Some:
  assumes "highlight_lines_loop e hl c out lines = Some res"
    and covers: "\<forall>hl line hl' rs. highlight_line e hl line = Some (hl', rs) \<longrightarrow> concat (map snd rs) = line"
  shows "\<exists>rss. res = out @ concat (map (\<lambda>rs. styles_to_coloured_html rs (IfDifferent c)) rss)
             \<and> concat (map snd (concat rss)) = concat lines"
  using assms(1)
proof (induction lines arbitrary: hl out)
  case Nil
  then show ?case by (intro exI [of _ "[]"]) simp
next
  case (Cons line lines)
  then obtain hl' rs where h: "highlight_line e hl line = Some (hl', rs)"
    and rest: "highlight_lines_loop e hl' c (out @ styles_to_coloured_html rs (IfDifferent c)) lines = Some res"
    by (auto split: option.splits)
  from Cons.IH [OF rest] obtain rss where
    res: "res = (out @ styles_to_coloured_html rs (IfDifferent c))
                @ concat (map (\<lambda>rs. styles_to_coloured_html rs (IfDifferent c)) rss)"
    and text_eq: "concat (map snd (concat rss)) = concat lines"
    by blast
  have "concat (map snd rs) = line" using covers h by blast
  with res text_eq show ?case by (intro exI [of _ "rs # rss"]) simp
qed

lemma strip_span_lists:
  "strip_tags (concat (map (\<lambda>rs. styles_to_coloured_html rs bg) rss) @ r) False
     = concat (map (\<lambda>p. escape_html (snd p)) (concat rss)) @ strip_tags r False"
  by (induction rss) (simp_all add: strip_spans)

lemma escape_pieces:
  "concat (map (\<lambda>p. escape_html (snd p)) ps) = concat (map escape_char (concat (map snd ps)))"
  by (induction ps) (simp_all add: escape_html_eq)

text \<open>The text content of the rendered HTML (tags removed, entities decoded) is the
  snippet itself after the newline that follows the opening \<open><pre>\<close> tag, provided
  the highlighter's styled pieces of each line make up that line.\<close>

lemma snippet_text_roundtrip:
  assumes "highlighted_snippet_for_string_newlines e s syntax theme = Some html"
    and covers: "\<forall>hl line hl' rs. highlight_line e hl line = Some (hl', rs) \<longrightarrow> concat (map snd rs) = line"
  shows "html_text html = CHR ''\<newline>'' # s"
proof -
  let ?c = "case theme_background e theme of Some c \<Rightarrow> c | None \<Rightarrow> color_white"
  from assms(1) obtain res where
    loop: "highlight_lines_loop e (highlight_lines_new e syntax theme) ?c (pre_open ?c)
             (lines_with_endings s) = Some res"
    and html: "html = res @ ''</pre>''"
    by (auto simp: highlighted_snippet_for_string_newlines_def Let_def)
  from highlight_lines_loop_Some [OF loop covers] obtain rss where
    res: "res = pre_open ?c @ concat (map (\<lambda>rs. styles_to_coloured_html rs (IfDifferent ?c)) rss)"
    and text_eq: "concat (map snd (concat rss)) = concat (lines_with_endings s)"
    by blast
  have "strip_tags html False
      = CHR ''\<newline>'' # concat (map (\<lambda>p. escape_html (snd p)) (concat rss))"
    by (simp add: html res strip_pre_open strip_span_lists)
  also have "concat (map (\<lambda>p. escape_html (snd p)) (concat rss))
      = concat (map escape_char (concat (map snd (concat rss))))"
    by (rule escape_pieces)
  finally have "strip_tags html False = CHR ''\<newline>'' # concat (map escape_char s)"
    using text_eq by (simp add: concat_lines_with_endings)
  then show ?thesis
    using unescape_escape_concat [of s "[]"]
    by (simp add: html_text_def unescape_plain unescape_html.simps [of "[]"])
qed


lemma highlight_lines_loop_prefix:
  "highlight_lines_loop e hl c out lines = Some res \<Longrightarrow> \<exists>r. res = out @ r"
  by (induction lines arbitrary: hl out) (fastforce split: option.splits)+

lemma parse_hex2_append: "parse_hex2 (hex2 w @ t) = w"
proof -
  have "parse_hex2 (hex2 w @ t) = parse_hex2 (hex2 w)"
    by (simp add: hex2_def parse_hex2_def)
  then show ?thesis by (simp add: hex2_roundtrip)
qed

text \<open>C15. The rendered snippet is the \<open><pre>\<close> element in the theme's background
  colour (white when the theme has none), then one span per styled piece of each line,
  in order, then \<open></pre>\<close>; the pieces make up the snippet, and a span states a
  background colour exactly when its piece's background differs from the
  container's (background elision), provided the highlighter's pieces of each line
  make up that line.\<close>

theorem snippet_background_elision:
  assumes "highlighted_snippet_for_string_newlines e s syntax theme = Some html"
    and covers: "\<forall>hl line hl' rs. highlight_line e hl line = Some (hl', rs) \<longrightarrow> concat (map snd rs) = line"
  shows \<open>let c = (case theme_background e theme of Some c \<Rightarrow> c | None \<Rightarrow> color_white) in
         \<exists>rss. html = pre_open c @ concat (map (\<lambda>rs. styles_to_coloured_html rs (IfDifferent c)) rss) @ ''</pre>''
           \<and> concat (map snd (concat rss)) = s
           \<and> (\<forall>(st, t) \<in> set (concat rss).
                prefix ''<span style="background-color:'' (styles_to_coloured_html [(st, t)] (IfDifferent c))
                \<longleftrightarrow> background st \<noteq> c)\<close>
proof -
  let ?c = "case theme_background e theme of Some c \<Rightarrow> c | None \<Rightarrow> color_white"
  from assms(1) obtain res where
    loop: "highlight_lines_loop e (highlight_lines_new e syntax theme) ?c (pre_open ?c)
             (lines_with_endings s) = Some res"
    and html: "html = res @ ''</pre>''"
    by (auto simp: highlighted_snippet_for_string_newlines_def Let_def)
  from highlight_lines_loop_Some [OF loop covers] obtain rss where
    res: "res = pre_open ?c @ concat (map (\<lambda>rs. styles_to_coloured_html rs (IfDifferent ?c)) rss)"
    and text_eq: "concat (map snd (concat rss)) = concat (lines_with_endings s)"
    by blast
  have \<open>\<forall>(st, t) \<in> set (concat rss).
      prefix ''<span style="background-color:'' (styles_to_coloured_html [(st, t)] (IfDifferent ?c))
      \<longleftrightarrow> background st \<noteq> ?c\<close>
    using span_background_elision by blast
  with html res text_eq show ?thesis
    by (auto simp: Let_def concat_lines_with_endings)
qed

text \<open>C16. The opening \<open><pre>\<close> tag of a rendered snippet states the theme's
  background colour, or white when the theme has none: its three hex pairs read back
  as the colour's red, green and blue bytes.\<close>

theorem snippet_pre_background:
  assumes "highlighted_snippet_for_string_newlines e s syntax theme = Some html"
  shows \<open>let c = (case theme_background e theme of Some c \<Rightarrow> c | None \<Rightarrow> color_white) in
         prefix ''<pre style="background-color:#'' html
         \<and> pre_background html = (color_r c, color_g c, color_b c)\<close>
proof -
  let ?c = "case theme_background e theme of Some c \<Rightarrow> c | None \<Rightarrow> color_white"
  from assms obtain res where
    loop: "highlight_lines_loop e (highlight_lines_new e syntax theme) ?c (pre_open ?c)
             (lines_with_endings s) = Some res"
    and html: "html = res @ ''</pre>''"
    by (auto simp: highlighted_snippet_for_string_newlines_def Let_def)
  from highlight_lines_loop_prefix [OF loop] obtain r where res: "res = pre_open ?c @ r" by blast
  have "length (hex2 w) = 2" for w :: u8 by (simp add: hex2_def)
  with html res show ?thesis
    by (simp add: Let_def pre_open_def pre_background_def parse_hex2_append)
qed

lemma html_tags_text: "CHR ''<'' \<notin> set t \<Longrightarrow> html_tags (t @ r) = html_tags r"
  by (induction t) auto

lemma dropWhile_not_gt:
  "CHR ''>'' \<notin> set xs \<Longrightarrow> dropWhile (\<lambda>x. x \<noteq> CHR ''>'') (xs @ ys) = dropWhile (\<lambda>x. x \<noteq> CHR ''>'') ys"
  by (induction xs) auto

lemma html_tags_span:
  "html_tags (styles_to_coloured_html (p # v) bg @ r)
     = ''span'' # ''/span'' # html_tags (styles_to_coloured_html v bg @ r)"
  by (cases p) (simp add: dropWhile_not_gt css_color_no_gt html_tags_text escape_html_no_lt
      split: if_split)

lemma html_tags_spans:
  "html_tags (styles_to_coloured_html v bg @ r)
     = concat (replicate (length v) [''span'', ''/span'']) @ html_tags r"
  by (induction v) (simp_all add: html_tags_span del: styles_to_coloured_html.simps(2))

lemma html_tags_span_lists:
  "html_tags (concat (map (\<lambda>rs. styles_to_coloured_html rs bg) rss) @ r)
     = concat (replicate (length (concat rss)) [''span'', ''/span'']) @ html_tags r"
  by (induction rss) (simp_all add: html_tags_spans replicate_add)

lemma html_tags_pre_open: "html_tags (pre_open c @ r) = ''pre'' # html_tags r"
  by (simp add: pre_open_def dropWhile_not_gt hex2_no_gt html_tags_text)

lemma highlight_lines_loop_spans:
  "highlight_lines_loop e hl c out lines = Some res \<Longrightarrow>
     \<exists>rss. res = out @ concat (map (\<lambda>rs. styles_to_coloured_html rs (IfDifferent c)) rss)"
proof (induction lines arbitrary: hl out)
  case Nil
  then show ?case by (intro exI [of _ "[]"]) simp
next
  case (Cons line lines)
  then obtain hl' rs where
    rest: "highlight_lines_loop e hl' c (out @ styles_to_coloured_html rs (IfDifferent c)) lines = Some res"
    by (auto split: option.splits)
  from Cons.IH [OF rest] obtain rss where
    "res = (out @ styles_to_coloured_html rs (IfDifferent c))
           @ concat (map (\<lambda>rs. styles_to_coloured_html rs (IfDifferent c)) rss)"
    by blast
  then show ?case by (intro exI [of _ "rs # rss"]) simp
qed

text \<open>Code cannot inject markup: the tags of a rendered snippet are the opening
  \<open>pre\<close>, one \<open>span\<close>/\<open>/span\<close> pair per styled piece, and the closing
  \<open>/pre\<close>, whatever bytes the snippet contains (every \<open><\<close> of the code is
  escaped, and no colour or style attribute contains \<open>>\<close>).\<close>

lemma snippet_tags:
  assumes "highlighted_snippet_for_string_newlines e s syntax theme = Some html"
  shows "\<exists>n. html_tags html = ''pre'' # concat (replicate n [''span'', ''/span'']) @ [''/pre'']"
proof -
  let ?c = "case theme_background e theme of Some c \<Rightarrow> c | None \<Rightarrow> color_white"
  from assms obtain res where
    loop: "highlight_lines_loop e (highlight_lines_new e syntax theme) ?c (pre_open ?c)
             (lines_with_endings s) = Some res"
    and html: "html = res @ ''</pre>''"
    by (auto simp: highlighted_snippet_for_string_newlines_def Let_def)
  from highlight_lines_loop_spans [OF loop] obtain rss where
    res: "res = pre_open ?c @ concat (map (\<lambda>rs. styles_to_coloured_html rs (IfDifferent ?c)) rss)"
    by blast
  have "html_tags html = ''pre'' # concat (replicate (length (concat rss)) [''span'', ''/span'']) @ [''/pre'']"
    by (simp add: html res html_tags_pre_open html_tags_span_lists)
  then show ?thesis by blast
qed

section \<open>The demo highlighter\<close>

lemma demo_highlight_covers:
  "\<forall>hl line hl' rs. highlight_line demo_engine hl line = Some (hl', rs) \<longrightarrow> concat (map snd rs) = line"
proof (intro allI impI)
  fix hl line hl' rs
  assume h: "highlight_line demo_engine hl line = Some (hl', rs)"
  have split: "concat (map snd [(demo_keyword_style, take 7 line), (demo_style, drop 7 line)]) = line"
    by simp
  from h have "rs = (if take 7 line = ''package''
                      then [(demo_keyword_style, take 7 line), (demo_style, drop 7 line)]
                      else [(demo_style, line)])"
    by (simp add: demo_engine_def demo_highlight_def)
  with split show "concat (map snd rs) = line"
    by (cases "take 7 line = ''package''") simp_all
qed


section \<open>Witnesses\<close>

theorem snippet_background_elision_witness:
  "\<exists>html rss. highlighted_snippet_for_string_newlines demo_engine ''package main\<newline>'' ''Go'' (Some color_white)
       = Some html
     \<and> html = pre_open color_white
              @ concat (map (\<lambda>rs. styles_to_coloured_html rs (IfDifferent color_white)) rss) @ ''</pre>''
     \<and> concat (map snd (concat rss)) = ''package main\<newline>''"
proof -
  obtain html where h: "highlighted_snippet_for_string_newlines demo_engine ''package main\<newline>'' ''Go''
      (Some color_white) = Some html"
    by (simp add: highlighted_snippet_for_string_newlines_def demo_engine_def demo_highlight_def
        lines_with_endings_Cons)
  from snippet_background_elision [OF h demo_highlight_covers] h show ?thesis
    by (auto simp: Let_def demo_engine_def)
qed

theorem snippet_pre_background_witness:
  "\<exists>html. highlighted_snippet_for_string_newlines demo_engine ''x'' ''Go''
            (Some \<lparr>color_r = 0x00, color_g = 0x2B, color_b = 0x36, color_a = 0xFF\<rparr>) = Some html
     \<and> pre_background html = (0x00, 0x2B, 0x36)"
proof -
  obtain html where h: "highlighted_snippet_for_string_newlines demo_engine ''x'' ''Go''
      (Some \<lparr>color_r = 0x00, color_g = 0x2B, color_b = 0x36, color_a = 0xFF\<rparr>) = Some html"
    by (simp add: highlighted_snippet_for_string_newlines_def demo_engine_def demo_highlight_def
        lines_with_endings_Cons Let_def)
  from snippet_pre_background [OF h] h show ?thesis
    by (auto simp: Let_def demo_engine_def)
qed

end
