(* ===== verification/Index_Set.thy ===== *)
theory Index_Set
  imports Prelude
begin

text \<open>
  The scope-name table of the exporter is an \<open>indexmap::IndexSet<String>\<close>: an
  insertion-ordered set whose elements are numbered by insertion.  It is modelled as
  the list of its elements in insertion order; \<open>insert_full\<close> returns the new set,
  the element's index and whether it was new, as \<open>IndexSet::insert_full\<close> does.
  The lemmas show the table's invariant (no duplicates), that an index once handed
  out keeps naming the same element, and that the table refines a plain set.
\<close>

fun index_of :: "'a \<Rightarrow> 'a list \<Rightarrow> nat option" where
  "index_of x [] = None"
| "index_of x (y # ys) = (if x = y then Some 0 else map_option Suc (index_of x ys))"

definition insert_full :: "'a \<Rightarrow> 'a list \<Rightarrow> 'a list \<times> nat \<times> bool" where
  "insert_full x index_set =
     (case index_of x index_set of
        Some i \<Rightarrow> (index_set, i, False)
      | None \<Rightarrow> (index_set @ [x], length index_set, True))"

section \<open>Lemmas\<close>

lemma index_of_None_iff [simp]: "index_of x xs = None \<longleftrightarrow> x \<notin> set xs"
  by (induction xs) auto

lemma index_of_Some_iff:
  "index_of x xs = Some i \<longleftrightarrow> i < length xs \<and> xs ! i = x \<and> x \<notin> set (take i xs)"
proof (induction xs arbitrary: i)
  case Nil
  then show ?case by simp
next
  case (Cons y ys)
  then show ?case by (cases i) auto
qed

lemma index_of_distinct:
  "distinct xs \<Longrightarrow> i < length xs \<Longrightarrow> index_of (xs ! i) xs = Some i"
  by (auto simp: index_of_Some_iff distinct_conv_nth in_set_conv_nth)

lemma insert_full_new [simp]:
  "x \<notin> set xs \<Longrightarrow> insert_full x xs = (xs @ [x], length xs, True)"
  by (simp add: insert_full_def index_of_None_iff [THEN iffD2])

lemma insert_full_present:
  "x \<in> set xs \<Longrightarrow> \<exists>i. index_of x xs = Some i \<and> insert_full x xs = (xs, i, False)"
  by (cases "index_of x xs") (auto simp: insert_full_def)

lemma insert_full_nth:
  "insert_full x xs = (xs', i, new) \<Longrightarrow> i < length xs' \<and> xs' ! i = x"
  by (auto simp: insert_full_def index_of_Some_iff split: option.splits)

lemma insert_full_set: "set (fst (insert_full x xs)) = insert x (set xs)"
  by (auto simp: insert_full_def index_of_Some_iff split: option.splits)

lemma insert_full_prefix: "prefix xs (fst (insert_full x xs))"
  by (auto simp: insert_full_def split: option.splits)

lemma insert_full_distinct: "distinct xs \<Longrightarrow> distinct (fst (insert_full x xs))"
  by (auto simp: insert_full_def split: option.splits)

text \<open>Index stability of \<open>IndexSet::insert_full\<close>: on a set without duplicates,
  inserting a value already present changes nothing and returns the index it has, and a
  new value is appended and gets the next index, \<open>len()\<close> before the insertion.\<close>

lemma insert_full_index:
  "distinct xs \<Longrightarrow> insert_full x xs = (xs', i, new) \<Longrightarrow>
     (if x \<in> set xs then xs' = xs \<and> xs ! i = x \<and> \<not> new else xs' = xs @ [x] \<and> i = length xs \<and> new)"
  by (auto simp: insert_full_def index_of_Some_iff split: option.splits)

lemma index_of_append_present:
  "x \<in> set xs \<Longrightarrow> index_of x (xs @ ys) = index_of x xs"
  by (induction xs) auto

lemma index_of_present:
  "x \<in> set xs \<Longrightarrow> the (index_of x xs) < length xs \<and> xs ! the (index_of x xs) = x"
proof -
  assume "x \<in> set xs"
  then obtain i where i: "index_of x xs = Some i"
    by (cases "index_of x xs") auto
  then have "i < length xs \<and> xs ! i = x" by (simp add: index_of_Some_iff)
  with i show ?thesis by simp
qed

text \<open>Inserting into a table without duplicates and then appending is the same as
  deduplicating the whole sequence.\<close>

lemma insert_full_nub:
  assumes "distinct names"
  shows "nub (fst (insert_full x names) @ xs) = nub (names @ x # xs)"
proof (cases "x \<in> set names")
  case True
  then have "fst (insert_full x names) = names"
    by (auto simp: insert_full_def split: option.splits)
  moreover have "nub (names @ x # xs) = nub (names @ xs)"
    using True assms by (simp only: nub_distinct_append filter.simps if_False simp_thms)
  ultimately show ?thesis by simp
next
  case False
  then show ?thesis by simp
qed

end
