(* ===== verification/Scopify.thy ===== *)
theory Scopify
  imports Lines Index_Set Demo_Engine
begin

text \<open>
  The scope exporter, \<open>scopify_string_newlines\<close> (src/src/main.rs).  Its state is
  the parser state, the \<open>ScopeStack\<close>, the scope-name table (an \<open>IndexSet\<close>),
  the regions emitted so far and the running byte offset (a \<open>usize\<close>).  The outer
  loop runs over the lines of the snippet (\<open>scopify_lines\<close>), the inner loop over
  the pieces of one line (\<open>scopify_regions\<close>), the innermost over the open scopes
  (\<open>scope_indices\<close>).

  Beside it stands the abstract exporter \<open>export_spec\<close>: the tokenizer's pieces
  for the whole snippet (\<open>line_tokens\<close>), the stack after each piece
  (\<open>stack_trace\<close>), and one region per non-empty piece with its offset, its length
  and the names of the scopes enclosing it (\<open>regions_of\<close>).  The implementation
  refines it: decoding its output (offsets read with \<open>unat\<close>, indices looked up
  in the name table) gives the abstract regions.
\<close>

record region =
  region_offset :: usize
  region_length :: usize
  region_scopes :: "nat list"

section \<open>The implementation\<close>

text \<open>\<open>for name in stack.as_slice() { let (name_index, _) =
  scope_names.insert_full(name.to_string()); affected_by_scopes.push(name_index); }\<close>\<close>

fun scope_indices :: "string list \<Rightarrow> nat list \<Rightarrow> string list \<Rightarrow> string list \<times> nat list" where
  "scope_indices scope_names affected [] = (scope_names, affected)"
| "scope_indices scope_names affected (name # names) =
     (case insert_full name scope_names of
        (scope_names', name_index, _) \<Rightarrow> scope_indices scope_names' (affected @ [name_index]) names)"

text \<open>\<open>for (s, op) in ScopeRegionIterator::new(&ops, &line) { ... }\<close>\<close>

fun scopify_regions ::
  "scope_stack \<Rightarrow> string list \<Rightarrow> region list \<Rightarrow> usize \<Rightarrow> (string \<times> scope_stack_op) list
     \<Rightarrow> (scope_stack \<times> string list \<times> region list \<times> usize) option" where
  "scopify_regions stack scope_names output offset [] = Some (stack, scope_names, output, offset)"
| "scopify_regions stack scope_names output offset ((s, op) # rs) =
     (case stack_apply stack op of
        None \<Rightarrow> None
      | Some stack' \<Rightarrow>
          (if s = [] then scopify_regions stack' scope_names output offset rs
           else (case scope_indices scope_names [] (scopes stack') of
                   (scope_names', affected_by_scopes) \<Rightarrow>
                     scopify_regions stack' scope_names'
                       (output @ [\<lparr>region_offset = offset, region_length = of_nat (length s),
                                   region_scopes = affected_by_scopes\<rparr>])
                       (offset + of_nat (length s)) rs)))"

text \<open>\<open>for line in LinesWithEndings::from(s) { let ops = state.parse_line(&line); ... }\<close>\<close>

fun scopify_lines ::
  "('syn, 'thm, 'ps, 'hl) syntect \<Rightarrow> 'ps \<Rightarrow> scope_stack \<Rightarrow> string list \<Rightarrow> region list
     \<Rightarrow> usize \<Rightarrow> string list \<Rightarrow> (string list \<times> region list) option" where
  "scopify_lines e state stack scope_names output offset [] = Some (scope_names, output)"
| "scopify_lines e state stack scope_names output offset (line # lines) =
     (case parse_line e state line of
        None \<Rightarrow> None
      | Some (state', ops) \<Rightarrow>
          (case scope_region_iterator ops line of
             None \<Rightarrow> None
           | Some items \<Rightarrow>
               (case scopify_regions stack scope_names output offset items of
                  None \<Rightarrow> None
                | Some (stack', scope_names', output', offset') \<Rightarrow>
                    scopify_lines e state' stack' scope_names' output' offset' lines)))"

text \<open>The function itself; the final copy of the \<open>IndexSet\<close> into a \<open>Vec\<close> keeps
  the insertion order, so the table is returned as it is.\<close>

definition scopify_string_newlines ::
  "('syn, 'thm, 'ps, 'hl) syntect \<Rightarrow> string \<Rightarrow> 'syn \<Rightarrow> (string list \<times> region list) option" where
  "scopify_string_newlines e s syntax =
     scopify_lines e (parse_state_new e syntax) scope_stack_new [] [] 0 (lines_with_endings s)"

section \<open>The abstract exporter\<close>

text \<open>The pieces the tokenizer and the region iterator produce for all lines.\<close>

fun line_tokens ::
  "('syn, 'thm, 'ps, 'hl) syntect \<Rightarrow> 'ps \<Rightarrow> string list \<Rightarrow> (string \<times> scope_stack_op) list option" where
  "line_tokens e state [] = Some []"
| "line_tokens e state (line # lines) =
     (case parse_line e state line of
        None \<Rightarrow> None
      | Some (state', ops) \<Rightarrow>
          (case scope_region_iterator ops line of
             None \<Rightarrow> None
           | Some items \<Rightarrow> map_option (\<lambda>rest. items @ rest) (line_tokens e state' lines)))"

text \<open>The non-empty pieces with the scopes open over each of them, and the final stack.\<close>

fun stack_trace ::
  "scope_stack \<Rightarrow> (string \<times> scope_stack_op) list \<Rightarrow> (scope_stack \<times> (string \<times> string list) list) option" where
  "stack_trace st [] = Some (st, [])"
| "stack_trace st ((s, op) # ts) =
     (case stack_apply st op of
        None \<Rightarrow> None
      | Some st' \<Rightarrow>
          map_option (\<lambda>(st'', tr). (st'', if s = [] then tr else (s, scopes st') # tr))
            (stack_trace st' ts))"

fun regions_of :: "nat \<Rightarrow> (string \<times> string list) list \<Rightarrow> (nat \<times> nat \<times> string list) list" where
  "regions_of off [] = []"
| "regions_of off ((s, names) # tr) = (off, length s, names) # regions_of (off + length s) tr"

definition export_spec ::
  "('syn, 'thm, 'ps, 'hl) syntect \<Rightarrow> string \<Rightarrow> 'syn \<Rightarrow> (nat \<times> nat \<times> string list) list option" where
  "export_spec e s syntax =
     (case line_tokens e (parse_state_new e syntax) (lines_with_endings s) of
        None \<Rightarrow> None
      | Some toks \<Rightarrow> map_option (\<lambda>(st, tr). regions_of 0 tr) (stack_trace scope_stack_new toks))"

text \<open>Reference for the loop structure: tokenize all lines first, then run the piece
  loop once over all pieces, with the scope stack, the name table, the regions and the
  offset carried from piece to piece.\<close>

definition scopify_flat ::
  "('syn, 'thm, 'ps, 'hl) syntect \<Rightarrow> string \<Rightarrow> 'syn \<Rightarrow> (string list \<times> region list) option" where
  "scopify_flat e s syntax =
     (case line_tokens e (parse_state_new e syntax) (lines_with_endings s) of
        None \<Rightarrow> None
      | Some toks \<Rightarrow>
          map_option (\<lambda>(stack, scope_names, output, offset). (scope_names, output))
            (scopify_regions scope_stack_new [] [] 0 toks))"

text \<open>How an abstract region is stored (\<open>encode_region\<close>) and read back
  (\<open>decode_region\<close>).\<close>

definition encode_region :: "string list \<Rightarrow> nat \<times> nat \<times> string list \<Rightarrow> region" where
  "encode_region names r = (case r of (off, len, ns) \<Rightarrow>
     \<lparr>region_offset = of_nat off, region_length = of_nat len,
      region_scopes = map (\<lambda>n. the (index_of n names)) ns\<rparr>)"

text \<open>The exporter's state (scope-name table, regions, offset) after the pieces of a
  trace: the abstraction that relates the two loops.\<close>

definition exporter_state :: "(string \<times> string list) list \<Rightarrow> string list \<times> region list \<times> usize" where
  "exporter_state tr =
     (let names = nub (concat (map snd tr))
      in (names, map (encode_region names) (regions_of 0 tr), of_nat (sum_list (map (length \<circ> fst) tr))))"

definition decode_region :: "string list \<Rightarrow> region \<Rightarrow> nat \<times> nat \<times> string list" where
  "decode_region names r =
     (unat (region_offset r), unat (region_length r), map (\<lambda>i. names ! i) (region_scopes r))"


section \<open>The name table loop\<close>

lemma scope_indices_eq:
  "distinct names \<Longrightarrow>
     scope_indices names acc xs =
       (nub (names @ xs), acc @ map (\<lambda>n. the (index_of n (nub (names @ xs)))) xs)"
proof (induction xs arbitrary: names acc)
  case Nil
  then show ?case by (simp add: nub_distinct_id)
next
  case (Cons x xs)
  obtain names1 i new where ins: "insert_full x names = (names1, i, new)"
    by (cases "insert_full x names") auto
  have d1: "distinct names1"
    using insert_full_distinct [OF Cons.prems, of x] ins by simp
  have nub_eq: "nub (names1 @ xs) = nub (names @ x # xs)"
    using insert_full_nub [OF Cons.prems, of x xs] ins by simp
  have nth: "i < length names1" "names1 ! i = x"
    using insert_full_nth [OF ins] by auto
  have "index_of x (nub (names @ x # xs)) = index_of x (names1 @ nub (filter (\<lambda>y. y \<notin> set names1) xs))"
    by (simp only: nub_eq [symmetric] nub_distinct_append [OF d1])
  also have "\<dots> = index_of x names1"
  proof (rule index_of_append_present)
    show "x \<in> set names1" using nth by (metis nth_mem)
  qed
  also have "\<dots> = Some i"
    using nth d1 index_of_distinct by metis
  finally have idx: "the (index_of x (nub (names @ x # xs))) = i" by simp
  have "scope_indices names acc (x # xs) = scope_indices names1 (acc @ [i]) xs"
    using ins by simp
  also have "\<dots> = (nub (names1 @ xs), (acc @ [i]) @ map (\<lambda>n. the (index_of n (nub (names1 @ xs)))) xs)"
    by (rule Cons.IH [OF d1])
  finally show ?case using nub_eq idx by simp
qed

section \<open>Lemmas on the abstract exporter\<close>

lemma regions_of_names:
  "(off', len, ns) \<in> set (regions_of off tr) \<Longrightarrow> set ns \<subseteq> set (concat (map snd tr))"
  by (induction off tr rule: regions_of.induct) auto

lemma regions_of_append:
  "regions_of off (xs @ ys) =
     regions_of off xs @ regions_of (off + sum_list (map (length \<circ> fst) xs)) ys"
  by (induction off xs rule: regions_of.induct) (auto simp: add.assoc)

lemma encode_region_stable:
  assumes "distinct (names @ extra)" and "set ns \<subseteq> set names"
  shows "encode_region (names @ extra) (off, len, ns) = encode_region names (off, len, ns)"
  using assms by (auto simp: encode_region_def index_of_append_present subset_iff)

lemma stack_trace_append:
  "stack_trace st (xs @ ys) =
     (case stack_trace st xs of
        None \<Rightarrow> None
      | Some (st', tr1) \<Rightarrow> map_option (\<lambda>(st'', tr2). (st'', tr1 @ tr2)) (stack_trace st' ys))"
  by (induction st xs rule: stack_trace.induct) (auto simp: map_option_case split: option.splits)

lemma exporter_state_snoc:
  assumes "exporter_state tr0 = (names, out, off)"
  shows "(nub (names @ xs),
          out @ [\<lparr>region_offset = off, region_length = of_nat (length s),
                  region_scopes = map (\<lambda>n. the (index_of n (nub (names @ xs)))) xs\<rparr>],
          off + of_nat (length s)) = exporter_state (tr0 @ [(s, xs)])"
proof -
  let ?N = "nub (concat (map snd tr0))"
  from assms have names: "names = ?N"
    and out: "out = map (encode_region ?N) (regions_of 0 tr0)"
    and off: "off = of_nat (sum_list (map (length \<circ> fst) tr0))"
    by (auto simp: exporter_state_def Let_def)
  have N': "nub (names @ xs) = nub (concat (map snd (tr0 @ [(s, xs)])))"
    by (simp add: names nub_nub_append)
  obtain extra where extra: "nub (names @ xs) = ?N @ extra"
    using nub_distinct_append [of ?N xs] names by auto
  have dist: "distinct (?N @ extra)"
    using extra [symmetric] by (metis distinct_nub)
  have stable: "map (encode_region (?N @ extra)) (regions_of 0 tr0) = map (encode_region ?N) (regions_of 0 tr0)"
  proof (rule map_cong [OF refl])
    fix r assume r: "r \<in> set (regions_of 0 tr0)"
    obtain a b ns where rr: "r = (a, b, ns)" by (cases r) auto
    with r have "set ns \<subseteq> set ?N" using regions_of_names by fastforce
    with dist rr show "encode_region (?N @ extra) r = encode_region ?N r"
      by (simp add: encode_region_stable)
  qed
  have "out @ [\<lparr>region_offset = off, region_length = of_nat (length s),
               region_scopes = map (\<lambda>n. the (index_of n (nub (names @ xs)))) xs\<rparr>]
      = map (encode_region (nub (names @ xs))) (regions_of 0 (tr0 @ [(s, xs)]))"
    using stable by (simp add: out off extra regions_of_append encode_region_def)
  with N' off show ?thesis
    by (simp add: exporter_state_def Let_def)
qed

lemma line_tokens_concat:
  "line_tokens e state lines = Some toks \<Longrightarrow> concat (map fst toks) = concat lines"
  by (induction lines arbitrary: state toks)
     (auto simp: scope_region_iterator_concat split: option.splits)

lemma stack_trace_pieces:
  "stack_trace st toks = Some (st', tr) \<Longrightarrow>
     concat (map fst tr) = concat (map fst toks) \<and> (\<forall>x \<in> set tr. fst x \<noteq> [])"
proof (induction st toks arbitrary: tr rule: stack_trace.induct)
  case (1 st)
  then show ?case by simp
next
  case (2 st s op ts)
  then obtain st1 tr1 where st1: "stack_apply st op = Some st1"
    and rest: "stack_trace st1 ts = Some (st', tr1)"
    and tr: "tr = (if s = [] then tr1 else (s, scopes st1) # tr1)"
    by (auto simp: map_option_case split: option.splits)
  from "2.IH" [OF st1 rest] tr show ?case by auto
qed

lemma regions_of_lengths:
  "map (\<lambda>r. fst (snd r)) (regions_of off tr) = map (length \<circ> fst) tr"
  by (induction off tr rule: regions_of.induct) auto

lemma regions_of_offsets:
  "i < length tr \<Longrightarrow>
     fst (regions_of off tr ! i) = off + sum_list (map (length \<circ> fst) (take i tr))"
proof (induction off tr arbitrary: i rule: regions_of.induct)
  case (1 off)
  then show ?case by simp
next
  case (2 off s names tr)
  then show ?case by (cases i) auto
qed

lemma regions_of_scopes:
  "concat (map (\<lambda>r. snd (snd r)) (regions_of off tr)) = concat (map snd tr)"
  by (induction off tr rule: regions_of.induct) auto

lemma regions_of_bound:
  "r \<in> set (regions_of off tr) \<Longrightarrow> fst r + fst (snd r) \<le> off + sum_list (map (length \<circ> fst) tr)"
  by (induction off tr rule: regions_of.induct) auto

lemma decode_encode_region:
  assumes "distinct names" "set ns \<subseteq> set names" "off < 2 ^ 64" "len < 2 ^ 64"
  shows "decode_region names (encode_region names (off, len, ns)) = (off, len, ns)"
proof -
  have "map (\<lambda>i. names ! i) (map (\<lambda>n. the (index_of n names)) ns) = ns"
    unfolding map_map
  proof (rule map_idI)
    fix n assume "n \<in> set ns"
    with assms(2) obtain i where i: "index_of n names = Some i"
      by (cases "index_of n names") auto
    then have "names ! i = n" by (simp add: index_of_Some_iff)
    with i show "((\<lambda>i. names ! i) \<circ> (\<lambda>n. the (index_of n names))) n = n"
      by simp
  qed
  with assms(3,4) show ?thesis
    by (simp add: decode_region_def encode_region_def)
qed

section \<open>Simulation of the loops\<close>

lemma scopify_regions_eq:
  "exporter_state tr0 = (names, out, off) \<Longrightarrow>
   scopify_regions st names out off items =
     map_option (\<lambda>(st', tr). (st', exporter_state (tr0 @ tr))) (stack_trace st items)"
proof (induction items arbitrary: st names out off tr0)
  case Nil
  then show ?case by simp
next
  case (Cons it rs)
  obtain s op where it: "it = (s, op)" by (cases it) auto
  show ?case
  proof (cases "stack_apply st op")
    case None
    with it show ?thesis by simp
  next
    case (Some st')
    show ?thesis
    proof (cases "s = []")
      case True
      have "scopify_regions st names out off (it # rs) = scopify_regions st' names out off rs"
        using it Some True by simp
      also have "\<dots> = map_option (\<lambda>(st', tr). (st', exporter_state (tr0 @ tr))) (stack_trace st' rs)"
        by (rule Cons.IH [OF Cons.prems])
      finally show ?thesis
        using it Some True by (simp add: map_option_case split: option.splits)
    next
      case False
      let ?xs = "scopes st'"
      let ?tr1 = "tr0 @ [(s, ?xs)]"
      have dn: "distinct names"
        using Cons.prems by (auto simp: exporter_state_def Let_def)
      have st1: "exporter_state ?tr1 = (nub (names @ ?xs),
          out @ [\<lparr>region_offset = off, region_length = of_nat (length s),
                  region_scopes = map (\<lambda>n. the (index_of n (nub (names @ ?xs)))) ?xs\<rparr>],
          off + of_nat (length s))"
        using exporter_state_snoc [OF Cons.prems, of ?xs s] by simp
      have "scopify_regions st names out off (it # rs)
          = scopify_regions st' (nub (names @ ?xs))
              (out @ [\<lparr>region_offset = off, region_length = of_nat (length s),
                       region_scopes = map (\<lambda>n. the (index_of n (nub (names @ ?xs)))) ?xs\<rparr>])
              (off + of_nat (length s)) rs"
        using it Some False by (simp add: scope_indices_eq [OF dn])
      also have "\<dots> = map_option (\<lambda>(st', tr). (st', exporter_state (?tr1 @ tr))) (stack_trace st' rs)"
        by (rule Cons.IH [OF st1])
      finally show ?thesis
        using it Some False by (simp add: map_option_case split: option.splits)
    qed
  qed
qed

lemma scopify_lines_eq:
  "exporter_state tr0 = (names, out, off) \<Longrightarrow>
   scopify_lines e state st names out off lines =
     (case line_tokens e state lines of
        None \<Rightarrow> None
      | Some toks \<Rightarrow>
          map_option (\<lambda>(st', tr). (fst (exporter_state (tr0 @ tr)), fst (snd (exporter_state (tr0 @ tr)))))
            (stack_trace st toks))"
proof (induction lines arbitrary: state st names out off tr0)
  case Nil
  then show ?case by simp
next
  case (Cons line lines)
  show ?case
  proof (cases "parse_line e state line")
    case None
    then show ?thesis by simp
  next
    case (Some r)
    obtain state' ops where r: "r = (state', ops)" by (cases r) auto
    show ?thesis
    proof (cases "scope_region_iterator ops line")
      case None
      with Some r show ?thesis by simp
    next
      case (Some items)
      note parsed = \<open>parse_line e state line = Some r\<close>
      show ?thesis
      proof (cases "stack_trace st items")
        case None
        then have "scopify_regions st names out off items = None"
          by (simp add: scopify_regions_eq [OF Cons.prems])
        with parsed r Some None show ?thesis
          by (simp add: stack_trace_append split: option.splits)
      next
        case (Some q)
        obtain st1 tr1 where q: "q = (st1, tr1)" by (cases q) auto
        obtain names1 out1 off1 where st1: "exporter_state (tr0 @ tr1) = (names1, out1, off1)"
          by (cases "exporter_state (tr0 @ tr1)") auto
        have regions: "scopify_regions st names out off items = Some (st1, names1, out1, off1)"
          using Some q st1 by (simp add: scopify_regions_eq [OF Cons.prems])
        have "scopify_lines e state st names out off (line # lines)
            = scopify_lines e state' st1 names1 out1 off1 lines"
          using parsed r \<open>scope_region_iterator ops line = Some items\<close> regions by simp
        also have "\<dots> = (case line_tokens e state' lines of
              None \<Rightarrow> None
            | Some toks \<Rightarrow>
                map_option (\<lambda>(st', tr). (fst (exporter_state ((tr0 @ tr1) @ tr)),
                                         fst (snd (exporter_state ((tr0 @ tr1) @ tr)))))
                  (stack_trace st1 toks))"
          by (rule Cons.IH [OF st1])
        finally show ?thesis
          using parsed r \<open>scope_region_iterator ops line = Some items\<close> Some q
          by (simp add: stack_trace_append map_option_case split: option.splits)
      qed
    qed
  qed
qed

lemma scopify_string_newlines_eq:
  "scopify_string_newlines e s syntax =
     (case line_tokens e (parse_state_new e syntax) (lines_with_endings s) of
        None \<Rightarrow> None
      | Some toks \<Rightarrow>
          map_option (\<lambda>(st', tr). (fst (exporter_state tr), fst (snd (exporter_state tr))))
            (stack_trace scope_stack_new toks))"
proof -
  have e0: "exporter_state [] = ([], [], 0)" by (simp add: exporter_state_def)
  show ?thesis
    unfolding scopify_string_newlines_def scopify_lines_eq [OF e0] append_Nil ..
qed

lemma scopify_string_newlines_SomeE:
  assumes "scopify_string_newlines e code syntax = Some (names, regions)"
  obtains toks st' tr where
    "line_tokens e (parse_state_new e syntax) (lines_with_endings code) = Some toks"
    "stack_trace scope_stack_new toks = Some (st', tr)"
    "names = nub (concat (map snd tr))"
    "regions = map (encode_region names) (regions_of 0 tr)"
    "sum_list (map (length \<circ> fst) tr) = length code"
    "\<forall>x \<in> set tr. fst x \<noteq> []"
proof -
  from assms obtain toks st' tr where
    lt: "line_tokens e (parse_state_new e syntax) (lines_with_endings code) = Some toks" and
    tr: "stack_trace scope_stack_new toks = Some (st', tr)" and
    res: "(fst (exporter_state tr), fst (snd (exporter_state tr))) = (names, regions)"
    by (auto simp: scopify_string_newlines_eq split: option.splits)
  have "concat (map fst tr) = code"
    using stack_trace_pieces [OF tr] line_tokens_concat [OF lt] concat_lines_with_endings by simp
  then have sum: "sum_list (map (length \<circ> fst) tr) = length code"
    by (metis length_concat map_map)
  from res have names: "names = nub (concat (map snd tr))"
    and regions: "regions = map (encode_region names) (regions_of 0 tr)"
    by (auto simp: exporter_state_def Let_def)
  show ?thesis
    using that [OF lt tr names regions sum] stack_trace_pieces [OF tr] by blast
qed


lemma regions_of_fit:
  "sum_list (map (length \<circ> fst) tr) < 2 ^ 64 \<Longrightarrow> r \<in> set (regions_of 0 tr) \<Longrightarrow>
     fst r < 2 ^ 64 \<and> fst (snd r) < 2 ^ 64"
  using regions_of_bound [of r 0 tr] by simp

lemma encoded_lengths_read_back:
  assumes "sum_list (map (length \<circ> fst) tr) < 2 ^ 64"
  shows "map (\<lambda>r. unat (region_length r)) (map (encode_region names) (regions_of 0 tr))
           = map (length \<circ> fst) tr"
proof -
  have "map (\<lambda>r. unat (region_length r)) (map (encode_region names) (regions_of 0 tr))
      = map (\<lambda>r. fst (snd r)) (regions_of 0 tr)"
    unfolding map_map
  proof (rule map_cong [OF refl])
    fix r assume "r \<in> set (regions_of 0 tr)"
    with assms have lt: "fst (snd r) < 2 ^ 64" using regions_of_fit by blast
    obtain x l ns where r: "r = (x, l, ns)" by (cases r) auto
    from lt show "((\<lambda>r. unat (region_length r)) \<circ> encode_region names) r = fst (snd r)"
      by (simp add: encode_region_def r)
  qed
  then show ?thesis by (simp add: regions_of_lengths)
qed

lemma encoded_offset_read_back:
  assumes "sum_list (map (length \<circ> fst) tr) < 2 ^ 64" and i: "i < length tr"
  shows "unat (region_offset (map (encode_region names) (regions_of 0 tr) ! i))
           = sum_list (map (length \<circ> fst) (take i tr))"
proof -
  have len: "length (regions_of 0 tr) = length tr"
    using regions_of_lengths [of 0 tr] by (metis length_map)
  with i have "regions_of 0 tr ! i \<in> set (regions_of 0 tr)" by simp
  with assms(1) have lt: "fst (regions_of 0 tr ! i) < 2 ^ 64" using regions_of_fit by blast
  obtain x l ns where r: "regions_of 0 tr ! i = (x, l, ns)" by (cases "regions_of 0 tr ! i") auto
  have "fst (regions_of 0 tr ! i) = sum_list (map (length \<circ> fst) (take i tr))"
    using i by (simp add: regions_of_offsets)
  with i len lt r show ?thesis
    by (simp add: encode_region_def)
qed


text \<open>The regions encoded from a trace of non-empty pieces partition the pieces' bytes.\<close>

lemma encoded_regions_partition:
  assumes fit: "sum_list (map (length \<circ> fst) tr) < 2 ^ 64"
    and nonempty: "\<forall>x \<in> set tr. fst x \<noteq> []"
    and regions: "regions = map (encode_region names) (regions_of 0 tr)"
  shows "(\<Sum>r\<leftarrow>regions. unat (region_length r)) = sum_list (map (length \<circ> fst) tr)
       \<and> (\<forall>i < length regions.
            unat (region_offset (regions ! i)) = (\<Sum>r\<leftarrow>take i regions. unat (region_length r)))
       \<and> (\<forall>r \<in> set regions. 0 < unat (region_length r))"
proof -
  have lens: "map (\<lambda>r. unat (region_length r)) regions = map (length \<circ> fst) tr"
    using encoded_lengths_read_back [OF fit] regions by simp
  have len: "length regions = length tr"
    using lens by (metis length_map)
  have total: "(\<Sum>r\<leftarrow>regions. unat (region_length r)) = sum_list (map (length \<circ> fst) tr)"
    using lens by simp
  have offs: "\<forall>i < length regions.
      unat (region_offset (regions ! i)) = (\<Sum>r\<leftarrow>take i regions. unat (region_length r))"
  proof (intro allI impI)
    fix i assume "i < length regions"
    then have "unat (region_offset (regions ! i)) = sum_list (map (length \<circ> fst) (take i tr))"
      using encoded_offset_read_back [OF fit] regions len by simp
    also have "\<dots> = (\<Sum>r\<leftarrow>take i regions. unat (region_length r))"
      using lens by (metis take_map)
    finally show "unat (region_offset (regions ! i)) = (\<Sum>r\<leftarrow>take i regions. unat (region_length r))" .
  qed
  have pos: "\<forall>r \<in> set regions. 0 < unat (region_length r)"
  proof
    fix r assume "r \<in> set regions"
    then have "unat (region_length r) \<in> set (map (length \<circ> fst) tr)"
      using lens by (metis image_eqI list.set_map)
    with nonempty show "0 < unat (region_length r)" by auto
  qed
  from total offs pos show ?thesis by blast
qed

text \<open>The abstract stack trace panics exactly when the run of the pieces' operations does.\<close>

lemma stack_trace_None_iff:
  "stack_trace st toks = None \<longleftrightarrow> stack_apply_all st (map snd toks) = None"
  by (induction st toks rule: stack_trace.induct) (auto split: option.splits)

text \<open>The two exporters agree on failure, and on success reading the code's regions
  back gives the abstract regions.\<close>

lemma scopify_None_iff_export_spec:
  "scopify_string_newlines e code syntax = None \<longleftrightarrow> export_spec e code syntax = None"
  by (auto simp: scopify_string_newlines_eq export_spec_def split: option.splits)

lemma scopify_decode_Some:
  assumes "scopify_string_newlines e code syntax = Some (names, regions)"
    and "length code < 2 ^ 64"
  shows "export_spec e code syntax = Some (map (decode_region names) regions)"
proof -
  obtain toks st' tr where
    lt: "line_tokens e (parse_state_new e syntax) (lines_with_endings code) = Some toks" and
    tr: "stack_trace scope_stack_new toks = Some (st', tr)" and
    names: "names = nub (concat (map snd tr))" and
    regions: "regions = map (encode_region names) (regions_of 0 tr)" and
    sum: "sum_list (map (length \<circ> fst) tr) = length code"
    using assms(1) by (rule scopify_string_newlines_SomeE)
  have fit: "sum_list (map (length \<circ> fst) tr) < 2 ^ 64" using sum assms(2) by simp
  have "map (decode_region names) regions = regions_of 0 tr"
    unfolding regions map_map
  proof (rule map_idI)
    fix r assume r_in: "r \<in> set (regions_of 0 tr)"
    obtain x l ns where r: "r = (x, l, ns)" by (cases r) auto
    have "set ns \<subseteq> set names"
      using regions_of_names [of x l ns 0 tr] r_in r names by simp
    moreover have "x < 2 ^ 64" "l < 2 ^ 64"
      using regions_of_fit [OF fit r_in] r by auto
    ultimately show "(decode_region names \<circ> encode_region names) r = r"
      using r names by (simp add: decode_encode_region)
  qed
  with lt tr show ?thesis
    by (simp add: export_spec_def)
qed

section \<open>Properties of the exporter\<close>

text \<open>C1. The regions the exporter returns partition the snippet's bytes: each region
  starts where the previous one ends (the first at offset 0), no region is empty, and
  the lengths add up to the byte length of the snippet.  Offsets and lengths are
  \<open>usize\<close> values; a snippet shorter than \<open>2^64\<close> bytes (any snippet that fits in
  memory) makes them exact.\<close>

theorem scopify_partition:
  assumes "scopify_string_newlines e code syntax = Some (names, regions)"
    and "length code < 2 ^ 64"
  shows "(\<Sum>r\<leftarrow>regions. unat (region_length r)) = length code
       \<and> (\<forall>i < length regions.
            unat (region_offset (regions ! i)) = (\<Sum>r\<leftarrow>take i regions. unat (region_length r)))
       \<and> (\<forall>r \<in> set regions. 0 < unat (region_length r))"
proof -
  obtain toks st' tr where
    regions: "regions = map (encode_region names) (regions_of 0 tr)" and
    sum: "sum_list (map (length \<circ> fst) tr) = length code" and
    nonempty: "\<forall>x \<in> set tr. fst x \<noteq> []"
    using assms(1) by (rule scopify_string_newlines_SomeE)
  have fit: "sum_list (map (length \<circ> fst) tr) < 2 ^ 64" using sum assms(2) by simp
  from encoded_regions_partition [OF fit nonempty regions] sum show ?thesis by simp
qed

text \<open>C2. The exporter implements the abstract exporter: reading its regions back
  (offsets and lengths as numbers, scope indices through the name table) gives, for
  each non-empty piece of the snippet in order, its offset, its length and the names
  of the scopes open over it, outermost first; and it panics exactly when the
  abstract exporter does.\<close>

theorem scopify_refines_export_spec:
  assumes "length code < 2 ^ 64"
  shows "map_option (\<lambda>(names, regions). map (decode_region names) regions)
           (scopify_string_newlines e code syntax) = export_spec e code syntax"
proof (cases "scopify_string_newlines e code syntax")
  case None
  then show ?thesis by (simp add: scopify_None_iff_export_spec)
next
  case (Some res)
  obtain names regions where res: "res = (names, regions)" by (cases res) auto
  with Some have "scopify_string_newlines e code syntax = Some (names, regions)" by simp
  from scopify_decode_Some [OF this assms] this show ?thesis by simp
qed

text \<open>C3. The scope-name table has no duplicates, every index a region holds is a
  valid index into it, and it lists exactly the scope names the regions use, in the
  order of their first use: the first name encountered gets index 0, the next new one
  index 1, and a name met again keeps its first index.\<close>

theorem scopify_scope_names:
  assumes "scopify_string_newlines e code syntax = Some (names, regions)"
  shows "distinct names
       \<and> names = nub (concat (map (\<lambda>r. map (\<lambda>i. names ! i) (region_scopes r)) regions))
       \<and> (\<forall>r \<in> set regions. \<forall>i \<in> set (region_scopes r). i < length names)"
proof -
  obtain toks st' tr where
    names: "names = nub (concat (map snd tr))" and
    regions: "regions = map (encode_region names) (regions_of 0 tr)"
    using assms by (rule scopify_string_newlines_SomeE)
  have dn: "distinct names" using names by simp
  have sub: "\<And>r. r \<in> set (regions_of 0 tr) \<Longrightarrow> set (snd (snd r)) \<subseteq> set names"
    using regions_of_names names by (metis prod.collapse set_nub)
  have dec: "\<And>r. r \<in> set (regions_of 0 tr) \<Longrightarrow>
      map (\<lambda>i. names ! i) (region_scopes (encode_region names r)) = snd (snd r)
      \<and> (\<forall>i \<in> set (region_scopes (encode_region names r)). i < length names)"
  proof -
    fix r assume r_in: "r \<in> set (regions_of 0 tr)"
    obtain x l ns where r: "r = (x, l, ns)" by (cases r) auto
    have "\<forall>n \<in> set ns. the (index_of n names) < length names \<and> names ! the (index_of n names) = n"
    proof
      fix n assume "n \<in> set ns"
      with sub [OF r_in] r have "n \<in> set names" by auto
      then show "the (index_of n names) < length names \<and> names ! the (index_of n names) = n"
        by (rule index_of_present)
    qed
    then show "map (\<lambda>i. names ! i) (region_scopes (encode_region names r)) = snd (snd r)
      \<and> (\<forall>i \<in> set (region_scopes (encode_region names r)). i < length names)"
      by (auto simp: encode_region_def r intro: map_idI)
  qed
  have "concat (map (\<lambda>r. map (\<lambda>i. names ! i) (region_scopes r)) regions)
      = concat (map (\<lambda>r. snd (snd r)) (regions_of 0 tr))"
    unfolding regions map_map using dec by (simp add: comp_def cong: map_cong)
  also have "\<dots> = concat (map snd tr)" by (rule regions_of_scopes)
  finally have "names = nub (concat (map (\<lambda>r. map (\<lambda>i. names ! i) (region_scopes r)) regions))"
    using names by simp
  moreover have "\<forall>r \<in> set regions. \<forall>i \<in> set (region_scopes r). i < length names"
    using dec regions by auto
  ultimately show ?thesis using dn by blast
qed



text \<open>C18. Index stability in the loop over the open scopes: starting from a table
  without duplicates, the loop only appends to the table (an index handed out earlier
  keeps naming the same scope), the table stays without duplicates and gains exactly
  the new names, and the loop collects one index per open scope, the index of that
  scope's name in the table.\<close>

theorem scope_indices_stable:
  assumes "distinct names" and "scope_indices names [] xs = (names', idxs)"
  shows "prefix names names' \<and> distinct names' \<and> set names' = set names \<union> set xs
       \<and> length idxs = length xs
       \<and> (\<forall>k < length xs. idxs ! k < length names' \<and> names' ! (idxs ! k) = xs ! k)"
proof -
  have eq: "names' = nub (names @ xs)"
    and idxs: "idxs = map (\<lambda>n. the (index_of n (nub (names @ xs)))) xs"
    using scope_indices_eq [OF assms(1), of "[]" xs] assms(2) by auto
  have "prefix names names'"
    unfolding eq nub_distinct_append [OF assms(1)] by simp
  moreover have "\<forall>k < length xs. idxs ! k < length names' \<and> names' ! (idxs ! k) = xs ! k"
  proof (intro allI impI)
    fix k assume k: "k < length xs"
    then have "xs ! k \<in> set names'" using eq by simp
    then show "idxs ! k < length names' \<and> names' ! (idxs ! k) = xs ! k"
      using index_of_present [of "xs ! k" names'] k by (simp add: idxs eq)
  qed
  ultimately show ?thesis using eq idxs by simp
qed

text \<open>C17. The exporter panics exactly when the tokenizer or the region iterator
  panics on some line (the pieces cannot be produced), or when, over the pieces of the
  whole snippet in order, a \<open>Restore\<close> finds no group of cleared scopes to put back.\<close>

theorem scopify_panics_iff:
  "scopify_string_newlines e code syntax = None \<longleftrightarrow>
     (case line_tokens e (parse_state_new e syntax) (lines_with_endings code) of
        None \<Rightarrow> True
      | Some toks \<Rightarrow> \<not> restores_balanced 0 (map snd toks))"
proof (cases "line_tokens e (parse_state_new e syntax) (lines_with_endings code)")
  case None
  then show ?thesis by (simp add: scopify_string_newlines_eq)
next
  case (Some toks)
  have "stack_apply_all scope_stack_new (map snd toks) \<noteq> None \<longleftrightarrow> restores_balanced 0 (map snd toks)"
    using stack_apply_all_succeeds_iff [of scope_stack_new "map snd toks"] by (simp add: scope_stack_new_def)
  with Some show ?thesis
    by (auto simp: scopify_string_newlines_eq stack_trace_None_iff split: option.splits)
qed

text \<open>C24. No region's end overflows: for a snippet shorter than \<open>2^64\<close> bytes, the
  64-bit sum \<open>offset + length\<close> of every region does not wrap around and is at most
  the snippet's length.\<close>

theorem scopify_region_bounds:
  assumes "scopify_string_newlines e code syntax = Some (names, regions)"
    and "length code < 2 ^ 64"
  shows "\<forall>r \<in> set regions.
           unat (region_offset r + region_length r) = unat (region_offset r) + unat (region_length r)
           \<and> unat (region_offset r) + unat (region_length r) \<le> length code"
proof
  fix r assume r_in: "r \<in> set regions"
  obtain toks st' tr where
    regions: "regions = map (encode_region names) (regions_of 0 tr)" and
    sum: "sum_list (map (length \<circ> fst) tr) = length code"
    using assms(1) by (rule scopify_string_newlines_SomeE)
  from r_in regions obtain x l ns where
    x_in: "(x, l, ns) \<in> set (regions_of 0 tr)" and r: "r = encode_region names (x, l, ns)"
    by auto
  have le: "x + l \<le> length code"
    using regions_of_bound [OF x_in] sum by simp
  with assms(2) have "unat (region_offset r) = x" "unat (region_length r) = l"
    by (simp_all add: r encode_region_def)
  with le assms(2) have "unat (region_offset r) + unat (region_length r) < 2 ^ LENGTH(64)"
    by simp
  then have "unat (region_offset r + region_length r) = unat (region_offset r) + unat (region_length r)"
    by (rule unat_add_lem [THEN iffD1])
  with le \<open>unat (region_offset r) = x\<close> \<open>unat (region_length r) = l\<close>
  show "unat (region_offset r + region_length r) = unat (region_offset r) + unat (region_length r)
           \<and> unat (region_offset r) + unat (region_length r) \<le> length code"
    by simp
qed

text \<open>C25. Offsets are kept at the code's width: whatever the snippet's length, each
  region's offset is the 64-bit (wrapping) sum of the lengths of the regions before
  it, as \<open>offset += s.len()\<close> on a \<open>usize\<close> computes it.\<close>

theorem scopify_offsets_wrap:
  assumes "scopify_string_newlines e code syntax = Some (names, regions)"
  shows "\<forall>i < length regions. region_offset (regions ! i) = sum_list (map region_length (take i regions))"
proof (intro allI impI)
  fix i assume i: "i < length regions"
  obtain toks st' tr where
    regions: "regions = map (encode_region names) (regions_of 0 tr)"
    using assms by (rule scopify_string_newlines_SomeE)
  have len: "length (regions_of 0 tr) = length tr"
    using regions_of_lengths [of 0 tr] by (metis length_map)
  with i regions have i': "i < length tr" by simp
  obtain x l ns where ri: "regions_of 0 tr ! i = (x, l, ns)" by (cases "regions_of 0 tr ! i") auto
  have "x = sum_list (map (length \<circ> fst) (take i tr))"
    using regions_of_offsets [OF i', of 0] ri by simp
  then have "region_offset (regions ! i) = of_nat (sum_list (map (length \<circ> fst) (take i tr)))"
    using i len regions ri by (simp add: encode_region_def)
  also have "\<dots> = sum_list (map (\<lambda>r. of_nat (fst (snd r))) (take i (regions_of 0 tr)))"
  proof -
    have m: "map (\<lambda>r. (of_nat (fst (snd r)) :: usize)) (regions_of 0 tr) = map (\<lambda>x. of_nat (length (fst x))) tr"
      using arg_cong [OF regions_of_lengths [of 0 tr], of "map (of_nat :: nat \<Rightarrow> usize)"]
      by (simp add: comp_def)
    show ?thesis
      by (simp add: of_nat_sum_list_map take_map [symmetric] comp_def m)
  qed
  also have "\<dots> = sum_list (map region_length (take i regions))"
  proof -
    have "region_length \<circ> encode_region names = (\<lambda>r. of_nat (fst (snd r)))"
      by (auto simp: encode_region_def fun_eq_iff split: prod.split)
    then show ?thesis by (simp add: regions take_map [symmetric])
  qed
  finally show "region_offset (regions ! i) = sum_list (map region_length (take i regions))" .
qed

text \<open>C32. Loop fusion: the nested loops of \<open>scopify_string_newlines\<close> (over lines,
  then over each line's pieces) compute what a single loop over the pieces of all lines
  computes, so the scope stack, the name table, the regions and the offset are carried
  across line boundaries exactly as within a line.\<close>

theorem scopify_lines_fused: "scopify_string_newlines e s syntax = scopify_flat e s syntax"
proof -
  have e0: "exporter_state [] = ([], [], 0)" by (simp add: exporter_state_def)
  show ?thesis
    by (auto simp: scopify_string_newlines_eq scopify_flat_def scopify_regions_eq [OF e0]
        map_option_case split: option.split)
qed

text \<open>C33. The export is no larger than the code: there are at most as many regions as
  the snippet has bytes (each region covers at least one byte), whatever its length.\<close>

theorem scopify_region_count:
  assumes "scopify_string_newlines e code syntax = Some (names, regions)"
  shows "length regions \<le> length code"
proof -
  obtain toks st' tr where
    regions: "regions = map (encode_region names) (regions_of 0 tr)" and
    sum: "sum_list (map (length \<circ> fst) tr) = length code" and
    nonempty: "\<forall>x \<in> set tr. fst x \<noteq> []"
    using assms by (rule scopify_string_newlines_SomeE)
  have "length (regions_of 0 tr) = length tr"
    using regions_of_lengths [of 0 tr] by (metis length_map)
  moreover have "length (map fst tr) \<le> length (concat (map fst tr))"
    using nonempty by (intro length_le_concat) auto
  moreover have "length (concat (map fst tr)) = length code"
    using sum by (simp add: length_concat comp_def)
  ultimately show ?thesis using regions by simp
qed

section \<open>Witnesses\<close>

lemma scopify_demo_go:
  "scopify_string_newlines demo_engine ''package main\<newline>'' ''Go''
     = Some ([''source.go'', ''keyword.other.package.go''],
             [\<lparr>region_offset = 0, region_length = 7, region_scopes = [0, 1]\<rparr>,
              \<lparr>region_offset = 7, region_length = 6, region_scopes = [0]\<rparr>])"
  by (simp add: scopify_string_newlines_def demo_engine_def demo_parse_line_def demo_scope_def
      lines_with_endings_Cons scope_region_iterator_def str_slice_def is_char_boundary_def
      is_utf8_continuation_def scope_stack_new_def insert_full_def)

theorem scopify_partition_witness:
  "scopify_string_newlines demo_engine ''package main\<newline>'' ''Go''
     = Some ([''source.go'', ''keyword.other.package.go''],
             [\<lparr>region_offset = 0, region_length = 7, region_scopes = [0, 1]\<rparr>,
              \<lparr>region_offset = 7, region_length = 6, region_scopes = [0]\<rparr>])
   \<and> length ''package main\<newline>'' < 2 ^ 64
   \<and> (\<Sum>r\<leftarrow>[\<lparr>region_offset = 0, region_length = 7, region_scopes = [0, 1]\<rparr>,
          \<lparr>region_offset = (7::usize), region_length = 6, region_scopes = [0]\<rparr>].
        unat (region_length r)) = length ''package main\<newline>''"
proof -
  have len: "length ''package main\<newline>'' < 2 ^ 64" by simp
  from scopify_partition [OF scopify_demo_go len] len scopify_demo_go show ?thesis by simp
qed

theorem scopify_refines_export_spec_witness:
  "length ''package main\<newline>'' < 2 ^ 64
   \<and> export_spec demo_engine ''package main\<newline>'' ''Go''
     = Some [(0, 7, [''source.go'', ''keyword.other.package.go'']), (7, 6, [''source.go''])]"
proof -
  have len: "length ''package main\<newline>'' < 2 ^ 64" by simp
  from scopify_refines_export_spec [OF len, of demo_engine "''Go''"] len show ?thesis
    by (simp add: scopify_demo_go decode_region_def)
qed

theorem scopify_scope_names_witness:
  "scopify_string_newlines demo_engine ''package main\<newline>'' ''Go''
     = Some ([''source.go'', ''keyword.other.package.go''],
             [\<lparr>region_offset = 0, region_length = 7, region_scopes = [0, 1]\<rparr>,
              \<lparr>region_offset = 7, region_length = 6, region_scopes = [0]\<rparr>])
   \<and> distinct [''source.go'', ''keyword.other.package.go'']
   \<and> [''source.go'', ''keyword.other.package.go'']
       = nub [''source.go'', ''keyword.other.package.go'', ''source.go'']"
  using scopify_scope_names [OF scopify_demo_go] scopify_demo_go by simp

theorem scope_indices_stable_witness:
  "scope_indices [''source.go''] [] [''source.go'', ''keyword.other.package.go'']
     = ([''source.go'', ''keyword.other.package.go''], [0, 1])
   \<and> prefix [''source.go''] [''source.go'', ''keyword.other.package.go'']"
proof -
  have d: "distinct [''source.go'']" by simp
  have r: "scope_indices [''source.go''] [] [''source.go'', ''keyword.other.package.go'']
     = ([''source.go'', ''keyword.other.package.go''], [0, 1])"
    by (simp add: insert_full_def)
  from scope_indices_stable [OF d r] r show ?thesis by simp
qed

theorem scopify_region_bounds_witness:
  "length ''package main\<newline>'' < 2 ^ 64
   \<and> unat (region_offset \<lparr>region_offset = 7, region_length = 6, region_scopes = [0]\<rparr>
           + region_length \<lparr>region_offset = (7::usize), region_length = 6, region_scopes = [0]\<rparr>)
       = 13"
proof -
  have len: "length ''package main\<newline>'' < 2 ^ 64" by simp
  from scopify_region_bounds [OF scopify_demo_go len] len show ?thesis by simp
qed

theorem scopify_offsets_wrap_witness:
  "region_offset (\<lparr>region_offset = 7, region_length = 6, region_scopes = [0]\<rparr> :: region)
     = sum_list (map region_length [\<lparr>region_offset = 0, region_length = 7, region_scopes = [0, 1]\<rparr>])"
  using scopify_offsets_wrap [OF scopify_demo_go] by simp

theorem scopify_lines_fused_witness:
  "scopify_flat demo_engine ''package main\<newline>'' ''Go''
     = Some ([''source.go'', ''keyword.other.package.go''],
             [\<lparr>region_offset = 0, region_length = 7, region_scopes = [0, 1]\<rparr>,
              \<lparr>region_offset = 7, region_length = 6, region_scopes = [0]\<rparr>])"
  using scopify_lines_fused [of demo_engine "''package main\<newline>''" "''Go''"] scopify_demo_go
  by simp

theorem scopify_region_count_witness:
  "length [\<lparr>region_offset = 0, region_length = 7, region_scopes = [0, 1]\<rparr>,
           \<lparr>region_offset = (7::usize), region_length = 6, region_scopes = [0]\<rparr>]
     \<le> length ''package main\<newline>''"
  using scopify_region_count [OF scopify_demo_go] .

end
