(* ===== verification/Handler.thy ===== *)
theory Handler
  imports Resolver Html Scopify
begin

text \<open>
  The request handler (src/src/main.rs): \<open>highlight\<close> resolves the syntax, then either
  exports scopes or looks the theme up and renders HTML, building the JSON response;
  \<open>index\<close> runs it under \<open>panic::catch_unwind\<close>, so that a panic anywhere in
  resolution, export or rendering (\<open>None\<close> here) becomes the \<open>panic\<close> error
  object; \<open>health\<close> and \<open>not_found\<close> are the other routes; \<open>main\<close> reads two
  environment variables.  The lemmas give the response for every branch.
\<close>

text \<open>\<open>json!({"offset": offset, "length": s.len(), "scopes": affected_by_scopes})\<close>\<close>

definition region_json :: "region \<Rightarrow> json" where
  "region_json r =
     JObj [(''offset'', JNum (unat (region_offset r))), (''length'', JNum (unat (region_length r))),
           (''scopes'', JArr (map JNum (region_scopes r)))]"

definition highlight :: "('syn, 'thm, 'ps, 'hl) syntect \<Rightarrow> query \<Rightarrow> json option" where
  "highlight e q =
     (case resolve_syntax e q of
        None \<Rightarrow> Some (JObj [(''error'', JStr ''invalid extension'')])
      | Some (syntax_def, is_plaintext) \<Rightarrow>
          (if scopify q then
             map_option (\<lambda>(scope_names, regions).
                 JObj [(''plaintext'', JBool is_plaintext),
                       (''detected_language'', JStr (syntax_name e syntax_def)),
                       (''scopified_scope_names'', JArr (map JStr scope_names)),
                       (''scopified_regions'', JArr (map region_json regions))])
               (scopify_string_newlines e (code q) syntax_def)
           else
             (case themes e (theme q) of
                None \<Rightarrow> Some (JObj [(''error'', JStr ''invalid theme''), (''code'', JStr ''invalid_theme'')])
              | Some th \<Rightarrow>
                  map_option (\<lambda>data.
                      JObj [(''data'', JStr data), (''plaintext'', JBool is_plaintext),
                            (''detected_language'', JStr (syntax_name e syntax_def))])
                    (highlighted_snippet_for_string_newlines e (code q) syntax_def th))))"

definition panic_response :: json where
  "panic_response = JObj [(''error'', JStr ''panic while highlighting code''), (''code'', JStr ''panic'')]"

definition index :: "('syn, 'thm, 'ps, 'hl) syntect \<Rightarrow> query \<Rightarrow> json" where
  "index e q = (case highlight e q of Some v \<Rightarrow> v | None \<Rightarrow> panic_response)"

definition health :: string where
  "health = ''OK''"

definition not_found :: json where
  "not_found = JObj [(''error'', JStr ''resource not found''), (''code'', JStr ''resource_not_found'')]"

text \<open>\<open>main\<close>: features are listed unless \<open>QUIET\<close> is \<open>true\<close>; permissive CORS is
  attached only when \<open>SYNTECT_SERVER_ALLOW_ORIGIN_STAR\<close> is \<open>true\<close>.  An unset (or
  non-Unicode) variable is \<open>None\<close>.\<close>

definition list_features_enabled :: "string option \<Rightarrow> bool" where
  "list_features_enabled quiet = (case quiet of Some v \<Rightarrow> v \<noteq> ''true'' | None \<Rightarrow> True)"

definition cors_enabled :: "string option \<Rightarrow> bool" where
  "cors_enabled allow = (case allow of Some v \<Rightarrow> v = ''true'' | None \<Rightarrow> False)"

section \<open>Lemmas\<close>

text \<open>Only a successful export answers with a \<open>scopified_regions\<close> field, and only a
  successful rendering with a \<open>data\<close> field.\<close>

lemma index_scopified_regionsD:
  assumes "json_get (index e q) ''scopified_regions'' = Some v"
  shows "\<exists>syn p names regions. resolve_syntax e q = Some (syn, p) \<and> scopify q
           \<and> scopify_string_newlines e (code q) syn = Some (names, regions)
           \<and> v = JArr (map region_json regions)"
  using assms by (auto simp: index_def highlight_def panic_response_def split: option.splits if_splits)

lemma index_dataD:
  assumes "json_get (index e q) ''data'' = Some v"
  shows "\<exists>syn p th html. resolve_syntax e q = Some (syn, p) \<and> \<not> scopify q
           \<and> themes e (theme q) = Some th
           \<and> highlighted_snippet_for_string_newlines e (code q) syn th = Some html
           \<and> v = JStr html"
  using assms by (auto simp: index_def highlight_def panic_response_def split: option.splits if_splits)

text \<open>C11. Without a file path, when neither the extension nor the first line matches, the
  response is the invalid-extension error, and it carries no \<open>code\<close> field.\<close>

theorem index_invalid_extension:
  assumes "filepath q = ''''"
    and "find_syntax_by_extension e (extension q) = None"
    and "find_syntax_by_first_line e (code q) = None"
  shows "index e q = JObj [(''error'', JStr ''invalid extension'')]
         \<and> json_get (index e q) ''code'' = None"
  using assms by (simp add: index_def highlight_def resolve_syntax_def)

text \<open>C12. In HTML mode, when the syntax resolves but the theme name is unknown, the
  response is the invalid-theme error with code \<open>invalid_theme\<close>.\<close>

theorem index_invalid_theme:
  assumes "resolve_syntax e q \<noteq> None" and "\<not> scopify q" and "themes e (theme q) = None"
  shows "index e q = JObj [(''error'', JStr ''invalid theme''), (''code'', JStr ''invalid_theme'')]"
  using assms by (auto simp: index_def highlight_def split: option.splits)

text \<open>C10. The panic response is returned exactly when the request's computation panics:
  the syntax resolved, and then the exporter (export mode) or, with a known theme, the
  renderer (HTML mode) panicked.  Every other outcome is a regular response.\<close>

theorem index_panic_iff:
  "index e q = panic_response \<longleftrightarrow>
     (\<exists>syn p. resolve_syntax e q = Some (syn, p) \<and>
        (if scopify q then scopify_string_newlines e (code q) syn = None
         else (\<exists>th. themes e (theme q) = Some th
                    \<and> highlighted_snippet_for_string_newlines e (code q) syn th = None)))"
  by (auto simp: index_def highlight_def panic_response_def split: option.splits)

text \<open>C13. In export mode the theme is never consulted: the response does not depend on
  the theme name, so an unknown theme cannot make an export fail.\<close>

theorem index_scopify_ignores_theme:
  assumes "scopify q"
  shows "index e (q\<lparr>theme := t\<rparr>) = index e q"
proof -
  have "resolve_syntax e (q\<lparr>theme := t\<rparr>) = resolve_syntax e q"
    by (simp add: resolve_syntax_def query_file_name_def query_extension_def split: option.split)
  with assms show ?thesis
    by (simp add: index_def highlight_def split: option.splits)
qed


section \<open>Witnesses\<close>

theorem index_invalid_extension_witness:
  "filepath (demo_query ''nonexistent_ext'' '''' ''???'') = ''''
   \<and> index demo_engine (demo_query ''nonexistent_ext'' '''' ''???'')
       = JObj [(''error'', JStr ''invalid extension'')]"
proof -
  have p: "filepath (demo_query ''nonexistent_ext'' '''' ''???'') = ''''" by (simp add: demo_query_def)
  have x: "find_syntax_by_extension demo_engine (extension (demo_query ''nonexistent_ext'' '''' ''???'')) = None"
    by (simp add: demo_query_def demo_engine_def demo_find_by_extension_def)
  have f: "find_syntax_by_first_line demo_engine (code (demo_query ''nonexistent_ext'' '''' ''???'')) = None"
    by (simp add: demo_query_def demo_engine_def demo_find_by_first_line_def)
  from index_invalid_extension [OF p x f] p show ?thesis by simp
qed

theorem index_invalid_theme_witness:
  "index demo_engine ((demo_query '''' ''a.b.c'' ''x'')\<lparr>theme := ''does-not-exist''\<rparr>)
     = JObj [(''error'', JStr ''invalid theme''), (''code'', JStr ''invalid_theme'')]"
proof -
  let ?q = "(demo_query '''' ''a.b.c'' ''x'')\<lparr>theme := ''does-not-exist''\<rparr>"
  have r: "resolve_syntax demo_engine ?q \<noteq> None"
    by (simp add: resolve_syntax_def demo_query_def query_file_name_def path_file_name_def
        path_components_def demo_engine_def demo_find_by_extension_def query_extension_def
        path_extension_def rsplit_file_at_dot_def demo_find_by_first_line_def)
  have s: "\<not> scopify ?q" by (simp add: demo_query_def)
  have t: "themes demo_engine (theme ?q) = None"
    by (simp add: demo_engine_def demo_themes_def)
  from index_invalid_theme [OF r s t] show ?thesis .
qed

theorem index_scopify_ignores_theme_witness:
  "scopify ((demo_query '''' ''main.go'' ''package main\<newline>'')\<lparr>scopify := True\<rparr>)
   \<and> index demo_engine ((demo_query '''' ''main.go'' ''package main\<newline>'')\<lparr>scopify := True, theme := ''does-not-exist''\<rparr>)
       = index demo_engine ((demo_query '''' ''main.go'' ''package main\<newline>'')\<lparr>scopify := True\<rparr>)"
proof -
  have s: "scopify ((demo_query '''' ''main.go'' ''package main\<newline>'')\<lparr>scopify := True\<rparr>)" by simp
  from index_scopify_ignores_theme [OF s, of demo_engine "''does-not-exist''"] s show ?thesis by simp
qed

end
