(* ===== verification/Server.thy ===== *)
theory Server
  imports Handler
begin

text \<open>
  Process start-up (src/src/main.rs): \<open>list_features\<close> prints the embedded themes
  and the supported file extensions to standard output, and \<open>main\<close> decides from two
  environment variables whether to print that list and whether to attach a permissive
  CORS fairing, mounts the routes and registers the 404 catcher.  Standard output is
  modelled as the list of lines printed so far, which \<open>println\<close> extends; the
  Rocket server itself (building, attaching, launching) is not modelled, only the
  configuration \<open>main\<close> hands to it.  A reader of the printed list
  (\<open>listed_themes\<close>, \<open>split_sep\<close>) states what a user can recover from it.
\<close>

section \<open>Printing the features\<close>

text \<open>\<open>println!\<close>: one more line on standard output.\<close>

definition println :: "string \<Rightarrow> string list \<Rightarrow> string list" where
  "println s out = out @ [s]"

text \<open>\<open>[String]::join(sep)\<close>.\<close>

fun str_join :: "string \<Rightarrow> string list \<Rightarrow> string" where
  "str_join sep [] = []"
| "str_join sep [x] = x"
| "str_join sep (x # y # xs) = x @ sep @ str_join sep (y # xs)"

definition list_features :: "('syn, 'thm, 'ps, 'hl) syntect \<Rightarrow> string list \<Rightarrow> string list" where
  "list_features e out =
     (let out = println ''## Embedded themes:'' out;
          out = println '''' out;
          out = fold (\<lambda>t. println (''- `'' @ t @ ''`'')) (theme_names e) out;
          out = println '''' out;
          out = println ''## Supported file extensions:'' out;
          out = println '''' out;
          out = fold (\<lambda>sd. println (''- '' @ syntax_name e sd @ '' (`''
                                    @ str_join ''`, `'' (file_extensions e sd) @ ''`)''))
                  (syntaxes e) out
      in println '''' out)"

section \<open>Start-up configuration\<close>

text \<open>What \<open>main\<close> hands to the HTTP layer: the lines printed, the mounted routes,
  whether the CORS fairing is attached, the registered catchers.  \<open>quiet\<close> and
  \<open>allow_origin_star\<close> are the values of \<open>QUIET\<close> and
  \<open>SYNTECT_SERVER_ALLOW_ORIGIN_STAR\<close>, \<open>None\<close> when unset.  \<open>to_cors()\<close> on
  \<open>AllowedOrigins::all()\<close> with default options does not fail, so its \<open>unwrap\<close>
  does not panic.\<close>

record server_config =
  srv_stdout :: "string list"
  srv_routes :: "string list"
  srv_cors :: bool
  srv_catchers :: "nat list"

definition main_startup ::
  "('syn, 'thm, 'ps, 'hl) syntect \<Rightarrow> string option \<Rightarrow> string option \<Rightarrow> server_config" where
  "main_startup e quiet allow_origin_star =
     \<lparr>srv_stdout = (if list_features_enabled quiet then list_features e [] else []),
      srv_routes = [''POST /'', ''GET /health''],
      srv_cors = cors_enabled allow_origin_star,
      srv_catchers = [404]\<rparr>"

section \<open>Reading the list back\<close>

text \<open>The theme names a reader finds under the themes heading: the item lines up to
  the next blank line, without their \<open>- `\<close> and \<open>`\<close>.\<close>

definition listed_themes :: "string list \<Rightarrow> string list" where
  "listed_themes out =
     (case out of
        h # b # rest \<Rightarrow>
          if h = ''## Embedded themes:'' \<and> b = ''''
          then map (\<lambda>l. butlast (drop 3 l)) (takeWhile (\<lambda>l. l \<noteq> '''') rest) else []
      | _ \<Rightarrow> [])"

text \<open>Splitting a string at every occurrence of a non-empty separator; \<open>cur\<close> is the
  piece read so far.\<close>

function split_sep :: "string \<Rightarrow> string \<Rightarrow> string \<Rightarrow> string list" where
  "split_sep sep cur [] = [cur]"
| "split_sep sep cur (c # s) =
     (if sep \<noteq> [] \<and> prefix sep (c # s) then cur # split_sep sep [] (drop (length sep - 1) s)
      else split_sep sep (cur @ [c]) s)"
  by pat_completeness auto
termination
  by (relation "measure (\<lambda>(sep, cur, s). length s)") auto

section \<open>Lemmas\<close>

lemma fold_println: "fold (\<lambda>x. println (f x)) xs out = out @ map f xs"
  by (induction xs arbitrary: out) (simp_all add: println_def)

lemma list_features_eq:
  "list_features e out =
     out @ [''## Embedded themes:'', ''''] @ map (\<lambda>t. ''- `'' @ t @ ''`'') (theme_names e)
     @ ['''', ''## Supported file extensions:'', '''']
     @ map (\<lambda>sd. ''- '' @ syntax_name e sd @ '' (`'' @ str_join ''`, `'' (file_extensions e sd) @ ''`)'')
         (syntaxes e)
     @ ['''']"
  by (simp add: list_features_def fold_println Let_def println_def)

text \<open>A piece without the separator's first byte is read whole.\<close>

lemma split_sep_skip:
  assumes "sep \<noteq> []" and "hd sep \<notin> set x"
  shows "split_sep sep cur (x @ s) = split_sep sep (cur @ x) s"
  using assms(2)
proof (induction x arbitrary: cur)
  case Nil
  then show ?case by simp
next
  case (Cons c x)
  have "\<not> prefix sep (c # x @ s)"
    using Cons.prems assms(1) by (cases sep) auto
  with Cons show ?case by simp
qed

lemma split_sep_join:
  assumes "sep \<noteq> []" and "xs \<noteq> []" and "\<forall>x \<in> set xs. hd sep \<notin> set x"
  shows "split_sep sep cur (str_join sep xs) = (cur @ hd xs) # tl xs"
  using assms(2,3)
proof (induction xs arbitrary: cur)
  case Nil
  then show ?case by simp
next
  case (Cons x xs)
  then have x: "hd sep \<notin> set x" by simp
  show ?case
  proof (cases xs)
    case Nil
    have "split_sep sep cur (x @ []) = split_sep sep (cur @ x) []"
      by (rule split_sep_skip [OF assms(1) x])
    with Nil show ?thesis by simp
  next
    case (Cons y ys)
    obtain c sep' where sep: "sep = c # sep'" using assms(1) by (cases sep) auto
    have "split_sep sep cur (str_join sep (x # xs))
        = split_sep sep (cur @ x) (sep @ str_join sep xs)"
      using split_sep_skip [OF assms(1) x, of cur "sep @ str_join sep xs"] Cons by simp
    also have "\<dots> = (cur @ x) # split_sep sep [] (str_join sep xs)"
      by (simp add: sep)
    also have "split_sep sep [] (str_join sep xs) = hd xs # tl xs"
      using "Cons.IH" [of "[]"] "Cons.prems" Cons by simp
    finally show ?thesis using Cons by simp
  qed
qed


section \<open>Properties\<close>

text \<open>C26. The themes printed at start-up read back as the theme catalog's keys, in
  order: each key is printed once, as a list item, between the themes heading and the
  next blank line.\<close>

theorem listed_themes_roundtrip: "listed_themes (list_features e []) = theme_names e"
proof -
  have items: "takeWhile (\<lambda>l. l \<noteq> '''') (map (\<lambda>t. ''- `'' @ t @ ''`'') ts @ '''' # r)
      = map (\<lambda>t. ''- `'' @ t @ ''`'') ts" for ts :: "string list" and r
    by (induction ts) simp_all
  have "map (\<lambda>l. butlast (drop 3 l)) (map (\<lambda>t. ''- `'' @ t @ ''`'') (theme_names e)) = theme_names e"
    by (simp add: comp_def butlast_append)
  with items show ?thesis
    by (simp add: listed_themes_def list_features_eq)
qed

text \<open>C27. The extension list printed for a syntax reads back as its file
  extensions: its line is \<open>- name (`...`)\<close>, and splitting the text between the
  backticks at \<open>`, `\<close> gives the extensions, provided the syntax has at least one
  extension and none contains a backtick.\<close>

theorem list_features_extensions:
  assumes "sd \<in> set (syntaxes e)" and "file_extensions e sd \<noteq> []"
    and "\<forall>x \<in> set (file_extensions e sd). CHR ''`'' \<notin> set x"
  shows "\<exists>J. ''- '' @ syntax_name e sd @ '' (`'' @ J @ ''`)'' \<in> set (list_features e [])
           \<and> split_sep ''`, `'' [] J = file_extensions e sd"
proof (intro exI conjI)
  show "''- '' @ syntax_name e sd @ '' (`'' @ str_join ''`, `'' (file_extensions e sd) @ ''`)''
          \<in> set (list_features e [])"
    using assms(1) by (simp add: list_features_eq)
  have "\<forall>x \<in> set (file_extensions e sd). hd ''`, `'' \<notin> set x" using assms(3) by simp
  from split_sep_join [OF _ assms(2) this, of "[]"] assms(2)
  show "split_sep ''`, `'' [] (str_join ''`, `'' (file_extensions e sd)) = file_extensions e sd"
    by simp
qed

text \<open>C28. At start-up the feature list is printed unless \<open>QUIET\<close> is exactly
  \<open>true\<close> (an unset variable prints it), the permissive CORS fairing is attached
  exactly when \<open>SYNTECT_SERVER_ALLOW_ORIGIN_STAR\<close> is exactly \<open>true\<close>, and the
  routes and the catcher do not depend on either.\<close>

theorem main_startup_config:
  "srv_stdout (main_startup e quiet allow) = (if quiet = Some ''true'' then [] else list_features e [])
   \<and> (srv_cors (main_startup e quiet allow) \<longleftrightarrow> allow = Some ''true'')
   \<and> srv_routes (main_startup e quiet allow) = [''POST /'', ''GET /health'']
   \<and> srv_catchers (main_startup e quiet allow) = [404]"
  by (simp add: main_startup_def list_features_enabled_def cors_enabled_def split: option.split)

section \<open>Witnesses\<close>

theorem listed_themes_roundtrip_witness:
  "listed_themes (list_features demo_engine []) = [''InspiredGitHub'', ''Solarized (dark)'']"
  using listed_themes_roundtrip [of demo_engine] by (simp add: demo_engine_def)

theorem list_features_extensions_witness:
  "''- CMake (`CMakeLists.txt`, `cmake`)'' \<in> set (list_features demo_engine [])
   \<and> split_sep ''`, `'' [] ''CMakeLists.txt`, `cmake'' = [''CMakeLists.txt'', ''cmake'']"
proof -
  have s: "''CMake'' \<in> set (syntaxes demo_engine)" by (simp add: demo_engine_def)
  have n: "file_extensions demo_engine ''CMake'' \<noteq> []"
    by (simp add: demo_engine_def demo_file_extensions_def)
  have b: "\<forall>x \<in> set (file_extensions demo_engine ''CMake''). CHR ''`'' \<notin> set x"
    by (simp add: demo_engine_def demo_file_extensions_def)
  from list_features_extensions [OF s n b] show ?thesis
    by (simp add: list_features_eq demo_engine_def demo_file_extensions_def)
qed

theorem main_startup_config_witness:
  "srv_stdout (main_startup demo_engine (Some ''true'') None) = []
   \<and> \<not> srv_cors (main_startup demo_engine (Some ''true'') None)
   \<and> length (srv_stdout (main_startup demo_engine None (Some ''false''))) = 13"
proof -
  have l: "length (list_features demo_engine []) = 13"
    by (simp add: list_features_eq demo_engine_def)
  show ?thesis
    using main_startup_config [of demo_engine "Some ''true''" None]
      main_startup_config [of demo_engine None "Some ''false''"] l
    by simp
qed

end
