(* ===== verification/Spec2Isabelle.thy ===== *)
theory Spec2Isabelle
  imports Server
begin

text \<open>
  \<^bold>\<open>A verification library for syntect_server.\<close>

  The program (src/src/main.rs) is an HTTP service with one operation: given a code
  snippet, a file path or legacy extension, a theme name and a \<open>scopify\<close> flag, it
  picks a grammar (the language-resolution cascade at the start of \<open>highlight\<close>), then
  either exports the snippet's scope regions (\<open>scopify_string_newlines\<close>) or looks the
  theme up and renders HTML (\<open>highlighted_snippet_for_string_newlines\<close>); \<open>index\<close>
  wraps the whole request in \<open>catch_unwind\<close> and turns a panic into an error object.
  Both paths split the snippet with the iterator \<open>LinesWithEndings\<close>.  The grammar
  engine, tokenizer, highlighter and theme store are the syntect library, called
  through a fixed interface; the scope stack, the region iterator, the HTML span
  writer and escaper (syntect), \<open>IndexSet\<close> (indexmap) and the path and string
  functions (std) are modelled as those libraries define them.

  \<^bold>\<open>Theories, bottom up.\<close>
  \<^item> \<open>Prelude\<close>: \<open>usize = 64 word\<close>, \<open>u8 = 8 word\<close>, JSON values (\<open>json\<close>,
    \<open>json_get\<close>), first-occurrence deduplication \<open>nub\<close>, shared list lemmas and the
    theorem collections \<open>str_simps\<close>, \<open>stack_simps\<close>, \<open>export_simps\<close>.
  \<^item> \<open>Rust_Str\<close>: strings are UTF-8 byte lists; byte slicing with its
    character-boundary panic (\<open>str_slice\<close>), \<open>str_find\<close>, \<open>str_split_at\<close>,
    \<open>Path::file_name\<close> and \<open>Path::extension\<close> on Unix paths.
  \<^item> \<open>Lines\<close>: \<open>LinesWithEndings\<close> (\<open>lines_next\<close> is \<open>next\<close>,
    \<open>lines_with_endings\<close> the lines a \<open>for\<close> loop visits) and a reference splitter
    \<open>lines_spec\<close>; C19 shows they agree, C20 gives the lines' structure; the
    \<open>for\<close> loop itself, \<open>next\<close> called until \<open>None\<close>, is the partial function
    \<open>lines_loop\<close>, and C23 shows it returns on every input.
  \<^item> \<open>Index_Set\<close>: \<open>IndexSet::insert_full\<close> on an insertion-ordered list: no
    duplicates, stable indices.
  \<^item> \<open>Scope_Stack\<close>: \<open>ScopeStack::apply\<close> as \<open>stack_apply\<close> on a record of the
    open scopes and the cleared groups; \<open>Restore\<close> undoes \<open>Clear\<close>, and a run panics
    exactly when a \<open>Restore\<close> finds nothing cleared.
  \<^item> \<open>Syntect\<close>: the interface record \<open>syntect\<close> (lookups, parser, highlighter,
    themes; a panic inside syntect is \<open>None\<close>), colours, styles, and
    \<open>ScopeRegionIterator\<close>, which panics exactly on bad operation positions.
  \<^item> \<open>Demo_Engine\<close>: a concrete instance of the interface (Go, Dockerfile, CMake,
    plain text and shell grammars, two themes) on which the witnesses evaluate.
  \<^item> \<open>Scopify\<close>: \<open>scopify_string_newlines\<close> as three nested loops
    (\<open>scopify_lines\<close> over lines, \<open>scopify_regions\<close> over the iterator's pieces,
    \<open>scope_indices\<close> over the open scopes) threading the parser state, the scope
    stack, the name table, the regions and a \<open>usize\<close> offset; the abstract exporter
    \<open>export_spec\<close> (pieces, then stacks, then regions with names) and the simulation
    lemmas.  C1: the regions partition the snippet; C2: the code refines the abstract
    exporter; C3: the name table is the first-use order of the names; C17: when the
    exporter panics; C18: index stability of the loop over the open scopes; C24:
    no region end overflows; C25: offsets are the wrapping 64-bit sums of lengths;
    C32: the nested loops equal one loop over all pieces (\<open>scopify_flat\<close>); C33: at
    most one region per byte.
  \<^item> \<open>Resolver\<close>: the \<open>Query\<close> record and \<open>resolve_syntax\<close>; the abstract
    cascade \<open>resolver_spec\<close> (first successful lookup of an ordered list).  C5:
    refinement; C6: whole file name before extension; C7: a file path never fails;
    C8: the legacy path fails exactly when both lookups fail; C21: the extension is
    what follows the file name's last dot; C31: a path without a file name looks up
    the empty extension.
  \<^item> \<open>Html\<close>: the \<open><pre>\<close> element, the per-line loop, \<open>styles_to_coloured_html\<close>,
    \<open>{:02x}\<close> colours and the escaper, with reference definitions (per-character
    escaping, unescaping, tag stripping, the colour of the \<open><pre>\<close> tag).  Lemmas: the
    run-copying escaper equals per-character escaping, is tag-safe and is inverted by
    unescaping; colour bytes round-trip; the tags of a rendered snippet are one
    \<open>pre\<close> and one \<open>span\<close> pair per piece (\<open>html_tags\<close>, a reader of the tag
    sequence).  C15: the snippet's structure and background
    elision; C16: the container states the theme's background (white by default).
  \<^item> \<open>Handler\<close>: \<open>highlight\<close>, \<open>index\<close> (\<open>catch_unwind\<close> as the \<open>None\<close> case),
    \<open>health\<close>, \<open>not_found\<close> and the two environment switches of \<open>main\<close>.  C10:
    when the panic object is returned; C11, C12: the two error responses; C13: export mode
    ignores the theme.
  \<^item> \<open>Server\<close>: \<open>list_features\<close> as a transformer of standard output (the list of
    lines printed), \<open>[String]::join\<close>, and the configuration \<open>main\<close> hands to
    Rocket (\<open>main_startup\<close>).  C26: the printed themes read back as the catalog's
    keys; C27: a syntax's printed extension list reads back as its extensions; C28:
    what the two environment variables switch.
  \<^item> This theory: the end-to-end properties of \<open>index\<close>, stated on the JSON a client
    reads.  C4: the exported regions partition the submitted code; C9: the
    invalid-extension error happens exactly on the legacy path; C14: the text of the
    HTML data is the submitted code; C22: every response has one of the documented
    shapes; C29: code cannot inject markup into the HTML data; C30: the empty snippet
    is answered without calling the tokenizer or the highlighter; C34: export mode,
    read back through a JSON decoder (\<open>decode_export_response\<close>), refines the
    abstract resolver composed with the abstract exporter.

  \<^bold>\<open>How the model corresponds to the code.\<close>  Each loop of the source is a
  recursive function over the list it iterates, carrying the loop's mutable locals
  as arguments and returning them; a call that can panic returns an option, and the
  caller propagates \<open>None\<close> the way an unwinding panic leaves the function, until
  \<open>index\<close> turns it into the panic object.  The syntax, theme, parser state and
  highlighter are type parameters of the interface, so nothing depends on syntect's
  internals.

  \<^bold>\<open>Bounds.\<close>  Offsets and lengths are \<open>usize\<close> (64-bit target); the theorems that
  read them as numbers assume the snippet is shorter than \<open>2^64\<close> bytes, which every
  string in memory is.  No loop needs fuel: every loop of the program runs over a
  finite list, and \<open>LinesWithEndings\<close> terminates by the length of its input
  (C23: at most one line per byte).  Without the length assumption C25 gives the
  wrapped offsets exactly.

  \<^bold>\<open>Not modelled.\<close>  The HTTP layer (Rocket routing, JSON (de)serialisation,
  launching, the CORS fairing's behaviour) is outside the program; the model stops at
  the configuration \<open>main\<close> passes to it.  Rocket's worker pool is library code:
  requests share no mutable state (\<open>SYNTAX_SET\<close> is thread-local, \<open>THEME_SET\<close>
  is never written), so a request's answer is \<open>index\<close> of its own query and the
  pool adds nothing the model of \<open>index\<close> does not already state.  The grammar catalog, tokenizer, highlighter and theme
  catalog stay partly modelled: what they compute is syntect's compiled grammar and
  theme data, not code of this repository, so syntect's
  grammar matching, tokenizer, highlighter styling and theme parsing are opaque
  fields of the interface.  The end-to-end HTML theorem assumes the highlighter's
  styled pieces of a line make up the line, which is syntect's contract for
  \<open>HighlightLines::highlight\<close>.
\<close>

text \<open>Reading a numeric field of a JSON object, as a client of the service does.\<close>

definition json_nat :: "json \<Rightarrow> string \<Rightarrow> nat option" where
  "json_nat r k = (case json_get r k of Some (JNum n) \<Rightarrow> Some n | _ \<Rightarrow> None)"

text \<open>Reading an export response back, as a client does: the plaintext flag, the
  language, and each region as its offset, its length and the names of its scopes
  (indices looked up in the returned name table).\<close>

fun json_string :: "json \<Rightarrow> string option" where
  "json_string (JStr s) = Some s"
| "json_string _ = None"

fun json_num :: "json \<Rightarrow> nat option" where
  "json_num (JNum n) = Some n"
| "json_num _ = None"

definition decode_region_json :: "string list \<Rightarrow> json \<Rightarrow> (nat \<times> nat \<times> string list) option" where
  "decode_region_json names r =
     (case (json_nat r ''offset'', json_nat r ''length'', json_get r ''scopes'') of
        (Some off, Some len, Some (JArr is)) \<Rightarrow>
          map_option (\<lambda>is. (off, len, map (\<lambda>i. names ! i) is)) (those (map json_num is))
      | _ \<Rightarrow> None)"

definition decode_export_response :: "json \<Rightarrow> (bool \<times> string \<times> (nat \<times> nat \<times> string list) list) option" where
  "decode_export_response r =
     (case (json_get r ''plaintext'', json_get r ''detected_language'',
            json_get r ''scopified_scope_names'', json_get r ''scopified_regions'') of
        (Some (JBool p), Some (JStr l), Some (JArr ns), Some (JArr rs)) \<Rightarrow>
          (case those (map json_string ns) of
             None \<Rightarrow> None
           | Some names \<Rightarrow> map_option (\<lambda>regs. (p, l, regs)) (those (map (decode_region_json names) rs)))
      | _ \<Rightarrow> None)"

section \<open>Properties of the service\<close>

text \<open>C4. End to end, export mode: whatever the engine and the query, when the response
  carries \<open>scopified_regions\<close>, every region object has a positive \<open>length\<close>, the
  lengths add up to the byte length of the submitted code, and each region's
  \<open>offset\<close> is the sum of the lengths before it (the regions are contiguous and do
  not overlap).\<close>

theorem index_export_partition:
  assumes "json_get (index e q) ''scopified_regions'' = Some (JArr rs)"
    and "length (code q) < 2 ^ 64"
  shows "(\<forall>r \<in> set rs. \<exists>n. json_nat r ''length'' = Some n \<and> 0 < n)
       \<and> (\<Sum>r\<leftarrow>rs. the (json_nat r ''length'')) = length (code q)
       \<and> (\<forall>i < length rs.
            json_nat (rs ! i) ''offset'' = Some (\<Sum>r\<leftarrow>take i rs. the (json_nat r ''length'')))"
proof -
  obtain syn p names regions where
    sc: "scopify_string_newlines e (code q) syn = Some (names, regions)" and
    rs: "rs = map region_json regions"
    using index_scopified_regionsD [OF assms(1)] by auto
  obtain toks st' tr where
    regions: "regions = map (encode_region names) (regions_of 0 tr)" and
    sum: "sum_list (map (length \<circ> fst) tr) = length (code q)" and
    nonempty: "\<forall>x \<in> set tr. fst x \<noteq> []"
    using sc by (rule scopify_string_newlines_SomeE)
  have fit: "sum_list (map (length \<circ> fst) tr) < 2 ^ 64" using sum assms(2) by simp
  note part = encoded_regions_partition [OF fit nonempty regions]
  have len: "\<And>r. json_nat (region_json r) ''length'' = Some (unat (region_length r))"
    and off: "\<And>r. json_nat (region_json r) ''offset'' = Some (unat (region_offset r))"
    by (simp_all add: json_nat_def region_json_def)
  have lens: "map (\<lambda>r. the (json_nat r ''length'')) rs = map (\<lambda>r. unat (region_length r)) regions"
    by (simp add: rs len)
  have pos: "\<forall>r \<in> set rs. \<exists>n. json_nat r ''length'' = Some n \<and> 0 < n"
    using part by (auto simp: rs len)
  have total: "(\<Sum>r\<leftarrow>rs. the (json_nat r ''length'')) = length (code q)"
  proof -
    have "(\<Sum>r\<leftarrow>rs. the (json_nat r ''length'')) = (\<Sum>r\<leftarrow>regions. unat (region_length r))"
      by (simp add: rs len comp_def)
    with part sum show ?thesis by simp
  qed
  have offs: "\<forall>i < length rs.
      json_nat (rs ! i) ''offset'' = Some (\<Sum>r\<leftarrow>take i rs. the (json_nat r ''length''))"
  proof (intro allI impI)
    fix i assume i: "i < length rs"
    then have "json_nat (rs ! i) ''offset'' = Some (unat (region_offset (regions ! i)))"
      by (simp add: rs off)
    also have "\<dots> = Some (\<Sum>r\<leftarrow>take i regions. unat (region_length r))"
      using part i rs by simp
    also have "(\<Sum>r\<leftarrow>take i regions. unat (region_length r)) = (\<Sum>r\<leftarrow>take i rs. the (json_nat r ''length''))"
      using lens by (metis take_map)
    finally show "json_nat (rs ! i) ''offset'' = Some (\<Sum>r\<leftarrow>take i rs. the (json_nat r ''length''))" .
  qed
  from pos total offs show ?thesis by blast
qed

text \<open>C14. End to end, HTML mode: when the response carries \<open>data\<close>, the text of that
  HTML (tags removed, entities decoded) is the submitted code after the newline that
  opens the \<open><pre>\<close> element, so the rendering neither loses, duplicates nor reorders
  a byte of the snippet, provided the highlighter's pieces of each line make up the line.\<close>

theorem index_html_text:
  assumes "json_get (index e q) ''data'' = Some (JStr d)"
    and "\<forall>hl line hl' rs. highlight_line e hl line = Some (hl', rs) \<longrightarrow> concat (map snd rs) = line"
  shows "html_text d = CHR ''\<newline>'' # code q"
proof -
  obtain syn th where h: "highlighted_snippet_for_string_newlines e (code q) syn th = Some d"
    using index_dataD [OF assms(1)] by auto
  from snippet_text_roundtrip [OF h assms(2)] show ?thesis .
qed

text \<open>C9. The invalid-extension error is answered exactly on the legacy path (empty
  \<open>filepath\<close>) when neither the extension nor the first line of the code matches a
  grammar; with a file path it never occurs.\<close>

theorem invalid_extension_only_legacy:
  "json_get (index e q) ''error'' = Some (JStr ''invalid extension'') \<longleftrightarrow>
     filepath q = '''' \<and> find_syntax_by_extension e (extension q) = None
     \<and> find_syntax_by_first_line e (code q) = None"
  by (auto simp: index_def highlight_def resolve_syntax_def panic_response_def
      split: option.splits if_splits)

text \<open>C22. Every response has one of the shapes the service documents: in export mode
  the export object (plaintext flag, language, scope names, regions), in HTML mode the
  HTML object (data, plaintext flag, language), or one of the error objects
  \<open>invalid extension\<close>, \<open>invalid theme\<close> (HTML mode only) and \<open>panic\<close>.\<close>

theorem index_response_shapes:
  "(if scopify q
    then (\<exists>p l names rs. index e q =
            JObj [(''plaintext'', JBool p), (''detected_language'', JStr l),
                  (''scopified_scope_names'', JArr (map JStr names)), (''scopified_regions'', JArr rs)])
    else (\<exists>d p l. index e q =
            JObj [(''data'', JStr d), (''plaintext'', JBool p), (''detected_language'', JStr l)])
         \<or> index e q = JObj [(''error'', JStr ''invalid theme''), (''code'', JStr ''invalid_theme'')])
   \<or> index e q = JObj [(''error'', JStr ''invalid extension'')]
   \<or> index e q = panic_response"
  by (auto simp: index_def highlight_def split: option.splits)

text \<open>C29. End to end, code cannot inject markup into the HTML a client receives:
  when the response carries \<open>data\<close>, its tags are the opening \<open>pre\<close>, one
  \<open>span\<close>/\<open>/span\<close> pair per styled piece and the closing \<open>/pre\<close>, whatever
  bytes the submitted code contains.\<close>

theorem index_html_tags:
  assumes "json_get (index e q) ''data'' = Some (JStr d)"
  shows "\<exists>n. html_tags d = ''pre'' # concat (replicate n [''span'', ''/span'']) @ [''/pre'']"
proof -
  obtain syn th where h: "highlighted_snippet_for_string_newlines e (code q) syn th = Some d"
    using index_dataD [OF assms] by auto
  from snippet_tags [OF h] show ?thesis .
qed

text \<open>C30. The empty snippet: neither the tokenizer nor the highlighter is ever called
  (\<open>LinesWithEndings\<close> yields no line), so for every engine the export answers with no
  scope names and no regions, and HTML mode with a known theme answers with an empty
  \<open><pre>\<close> element in the theme's background; an empty snippet never panics.\<close>

theorem index_empty_code:
  assumes "code q = ''''" and "resolve_syntax e q = Some (syn, p)"
  shows "(scopify q \<longrightarrow>
            index e q = JObj [(''plaintext'', JBool p), (''detected_language'', JStr (syntax_name e syn)),
                              (''scopified_scope_names'', JArr []), (''scopified_regions'', JArr [])])
       \<and> (\<not> scopify q \<longrightarrow> themes e (theme q) = Some th \<longrightarrow>
            index e q = JObj [(''data'', JStr (pre_open (case theme_background e th of Some c \<Rightarrow> c
                                                                  | None \<Rightarrow> color_white) @ ''</pre>'')),
                              (''plaintext'', JBool p), (''detected_language'', JStr (syntax_name e syn))])"
proof -
  have x: "scopify_string_newlines e (code q) syn = Some ([], [])"
    using assms(1) by (simp add: scopify_string_newlines_def scope_stack_new_def)
  have h: "highlighted_snippet_for_string_newlines e (code q) syn th
      = Some (pre_open (case theme_background e th of Some c \<Rightarrow> c | None \<Rightarrow> color_white) @ ''</pre>'')"
    using assms(1) by (simp add: highlighted_snippet_for_string_newlines_def Let_def)
  show ?thesis
    using assms(2) x h by (simp add: index_def highlight_def)
qed

lemma decode_region_json_region:
  "decode_region_json names (region_json r) = Some (decode_region names r)"
proof -
  have "those (map json_num (map JNum is)) = Some is" for "is"
    by (induction "is") simp_all
  then show ?thesis
    by (simp add: decode_region_json_def json_nat_def region_json_def decode_region_def)
qed

text \<open>C34. End to end, export mode refines the abstract specification: the abstract
  resolver (first successful lookup of the cascade) decides between the
  invalid-extension error and a grammar; on that grammar the abstract exporter either
  fails, and the response is the panic object, or gives its regions, and reading the
  JSON response back gives the resolver's plaintext flag, the grammar's name and
  exactly those regions, with their scope names.\<close>

theorem index_export_refines_spec:
  assumes "scopify q" and "length (code q) < 2 ^ 64"
  shows "(case resolver_spec e q of
            None \<Rightarrow> index e q = JObj [(''error'', JStr ''invalid extension'')]
          | Some (syn, p) \<Rightarrow>
              (case export_spec e (code q) syn of
                 None \<Rightarrow> index e q = panic_response
               | Some rs \<Rightarrow> decode_export_response (index e q) = Some (p, syntax_name e syn, rs)))"
proof -
  have res: "resolve_syntax e q = resolver_spec e q"
    by (simp add: resolve_syntax_def resolver_spec_def lookup_cascade_def split: option.splits)
  show ?thesis
  proof (cases "resolver_spec e q")
    case None
    with res show ?thesis by (simp add: index_def highlight_def)
  next
    case (Some r)
    obtain syn p where r: "r = (syn, p)" by (cases r)
    show ?thesis
    proof (cases "scopify_string_newlines e (code q) syn")
      case None
      then have "export_spec e (code q) syn = None" by (simp add: scopify_None_iff_export_spec)
      with None Some r res assms(1) show ?thesis by (simp add: index_def highlight_def)
    next
      case (Some x)
      obtain names regions where x: "x = (names, regions)" by (cases x)
      with Some have sc: "scopify_string_newlines e (code q) syn = Some (names, regions)" by simp
      have spec: "export_spec e (code q) syn = Some (map (decode_region names) regions)"
        using scopify_decode_Some [OF sc assms(2)] .
      have ns: "those (map json_string (map JStr ns)) = Some ns" for ns
        by (induction ns) simp_all
      have rs: "those (map (decode_region_json names) (map region_json xs))
          = Some (map (decode_region names) xs)" for xs
        by (induction xs) (simp_all add: decode_region_json_region)
      from \<open>resolver_spec e q = Some r\<close> r res sc spec ns rs assms(1) show ?thesis
        by (simp add: index_def highlight_def decode_export_response_def)
    qed
  qed
qed

section \<open>Witnesses\<close>

theorem index_export_partition_witness:
  "json_get (index demo_engine ((demo_query '''' ''main.go'' ''package main\<newline>'')\<lparr>scopify := True\<rparr>))
       ''scopified_regions''
     = Some (JArr [JObj [(''offset'', JNum 0), (''length'', JNum 7), (''scopes'', JArr [JNum 0, JNum 1])],
                   JObj [(''offset'', JNum 7), (''length'', JNum 6), (''scopes'', JArr [JNum 0])]])
   \<and> (\<Sum>r\<leftarrow>[JObj [(''offset'', JNum 0), (''length'', JNum 7), (''scopes'', JArr [JNum 0, JNum 1])],
            JObj [(''offset'', JNum 7), (''length'', JNum 6), (''scopes'', JArr [JNum 0])]].
        the (json_nat r ''length'')) = 13"
proof -
  let ?q = "(demo_query '''' ''main.go'' ''package main\<newline>'')\<lparr>scopify := True\<rparr>"
  have r: "resolve_syntax demo_engine ?q = Some (''Go'', False)"
    by (simp add: resolve_syntax_def demo_query_def query_file_name_def path_file_name_def
        path_components_def demo_engine_def demo_find_by_extension_def query_extension_def
        path_extension_def rsplit_file_at_dot_def)
  have x: "scopify_string_newlines demo_engine (code ?q) ''Go''
     = Some ([''source.go'', ''keyword.other.package.go''],
             [\<lparr>region_offset = 0, region_length = 7, region_scopes = [0, 1]\<rparr>,
              \<lparr>region_offset = 7, region_length = 6, region_scopes = [0]\<rparr>])"
    using scopify_demo_go by (simp add: demo_query_def)
  have j: "json_get (index demo_engine ?q) ''scopified_regions''
     = Some (JArr [JObj [(''offset'', JNum 0), (''length'', JNum 7), (''scopes'', JArr [JNum 0, JNum 1])],
                   JObj [(''offset'', JNum 7), (''length'', JNum 6), (''scopes'', JArr [JNum 0])]])"
    using r x by (simp add: index_def highlight_def region_json_def)
  have l: "length (code ?q) < 2 ^ 64" by (simp add: demo_query_def)
  from index_export_partition [OF j l] j show ?thesis by (simp add: demo_query_def)
qed

theorem index_html_text_witness:
  "\<exists>d. json_get (index demo_engine (demo_query '''' ''main.go'' ''package main\<newline>'')) ''data''
         = Some (JStr d)
       \<and> html_text d = ''\<newline>package main\<newline>''"
proof -
  let ?q = "demo_query '''' ''main.go'' ''package main\<newline>''"
  have r: "resolve_syntax demo_engine ?q = Some (''Go'', False)"
    by (simp add: resolve_syntax_def demo_query_def query_file_name_def path_file_name_def
        path_components_def demo_engine_def demo_find_by_extension_def query_extension_def
        path_extension_def rsplit_file_at_dot_def)
  have t: "themes demo_engine (theme ?q) = Some (Some color_white)"
    by (simp add: demo_query_def demo_engine_def demo_themes_def)
  obtain html where h: "highlighted_snippet_for_string_newlines demo_engine (code ?q) ''Go'' (Some color_white)
      = Some html"
    by (simp add: demo_query_def highlighted_snippet_for_string_newlines_def demo_engine_def
        demo_highlight_def lines_with_endings_Cons)
  have d: "json_get (index demo_engine ?q) ''data'' = Some (JStr html)"
    using r t h by (simp add: index_def highlight_def demo_query_def)
  from index_html_text [OF d demo_highlight_covers] d show ?thesis by (auto simp: demo_query_def)
qed

theorem invalid_extension_only_legacy_witness:
  "json_get (index demo_engine (demo_query ''nonexistent_ext'' '''' ''???'')) ''error''
     = Some (JStr ''invalid extension'')"
  using invalid_extension_only_legacy [of demo_engine "demo_query ''nonexistent_ext'' '''' ''???''"]
  by (simp add: demo_query_def demo_engine_def demo_find_by_extension_def demo_find_by_first_line_def)

theorem index_response_shapes_witness:
  "index demo_engine ((demo_query '''' ''a.b.c'' ''x'')\<lparr>theme := ''does-not-exist''\<rparr>)
     = JObj [(''error'', JStr ''invalid theme''), (''code'', JStr ''invalid_theme'')]
   \<and> index demo_engine ((demo_query '''' ''a.b.c'' ''x'')\<lparr>theme := ''does-not-exist''\<rparr>) \<noteq> panic_response"
proof -
  let ?q = "(demo_query '''' ''a.b.c'' ''x'')\<lparr>theme := ''does-not-exist''\<rparr>"
  have r: "resolve_syntax demo_engine ?q = Some (''Plain Text'', True)"
    by (simp add: resolve_syntax_def demo_query_def query_file_name_def path_file_name_def
        path_components_def demo_engine_def demo_find_by_extension_def query_extension_def
        path_extension_def rsplit_file_at_dot_def demo_find_by_first_line_def)
  have i: "index demo_engine ?q = JObj [(''error'', JStr ''invalid theme''), (''code'', JStr ''invalid_theme'')]"
    using r by (simp add: index_def highlight_def demo_query_def demo_engine_def demo_themes_def)
  from index_response_shapes [where e = demo_engine and q = ?q] i show ?thesis
    by (simp add: panic_response_def)
qed

theorem index_html_tags_witness:
  "\<exists>d. json_get (index demo_engine (demo_query '''' ''page.go'' ''x<b>y'')) ''data'' = Some (JStr d)
       \<and> html_tags d = [''pre'', ''span'', ''/span'', ''/pre'']"
proof -
  let ?q = "demo_query '''' ''page.go'' ''x<b>y''"
  have r: "resolve_syntax demo_engine ?q = Some (''Go'', False)"
    by (simp add: resolve_syntax_def demo_query_def query_file_name_def path_file_name_def
        path_components_def demo_engine_def demo_find_by_extension_def query_extension_def
        path_extension_def rsplit_file_at_dot_def)
  have t: "themes demo_engine (theme ?q) = Some (Some color_white)"
    by (simp add: demo_query_def demo_engine_def demo_themes_def)
  obtain html where h: "highlighted_snippet_for_string_newlines demo_engine (code ?q) ''Go'' (Some color_white)
      = Some html"
    by (simp add: demo_query_def highlighted_snippet_for_string_newlines_def demo_engine_def
        demo_highlight_def lines_with_endings_Cons)
  have d: "json_get (index demo_engine ?q) ''data'' = Some (JStr html)"
    using r t h by (simp add: index_def highlight_def demo_query_def)
  from index_html_tags [OF d] obtain n where
    n: "html_tags html = ''pre'' # concat (replicate n [''span'', ''/span'']) @ [''/pre'']" by blast
  have hs: "html = pre_open color_white
      @ styles_to_coloured_html [(demo_style, ''x<b>y'')] (IfDifferent color_white) @ ''</pre>''"
    using h by (simp add: demo_query_def highlighted_snippet_for_string_newlines_def demo_engine_def
        demo_highlight_def lines_with_endings_Cons del: styles_to_coloured_html.simps)
  have "length (html_tags html) = 4"
    by (simp add: hs html_tags_pre_open html_tags_spans del: styles_to_coloured_html.simps)
  with n have "n = 1" by (simp add: length_concat sum_list_replicate)
  with n d show ?thesis by auto
qed

theorem index_empty_code_witness:
  "index demo_engine ((demo_query '''' ''main.go'' '''')\<lparr>scopify := True\<rparr>)
     = JObj [(''plaintext'', JBool False), (''detected_language'', JStr ''Go''),
             (''scopified_scope_names'', JArr []), (''scopified_regions'', JArr [])]"
proof -
  let ?q = "(demo_query '''' ''main.go'' '''')\<lparr>scopify := True\<rparr>"
  have c: "code ?q = ''''" by (simp add: demo_query_def)
  have r: "resolve_syntax demo_engine ?q = Some (''Go'', False)"
    by (simp add: resolve_syntax_def demo_query_def query_file_name_def path_file_name_def
        path_components_def demo_engine_def demo_find_by_extension_def query_extension_def
        path_extension_def rsplit_file_at_dot_def)
  from index_empty_code [OF c r, of "Some color_white"] show ?thesis
    by (simp add: demo_engine_def)
qed

theorem index_export_refines_spec_witness:
  "decode_export_response (index demo_engine ((demo_query '''' ''main.go'' ''package main\<newline>'')\<lparr>scopify := True\<rparr>))
     = Some (False, ''Go'', [(0, 7, [''source.go'', ''keyword.other.package.go'']), (7, 6, [''source.go''])])"
proof -
  let ?q = "(demo_query '''' ''main.go'' ''package main\<newline>'')\<lparr>scopify := True\<rparr>"
  have s: "scopify ?q" by simp
  have l: "length (code ?q) < 2 ^ 64" by (simp add: demo_query_def)
  have r: "resolver_spec demo_engine ?q = Some (''Go'', False)"
    by (simp add: resolver_spec_def lookup_cascade_def demo_query_def query_file_name_def
        path_file_name_def path_components_def demo_engine_def demo_find_by_extension_def
        query_extension_def path_extension_def rsplit_file_at_dot_def)
  have x: "export_spec demo_engine (code ?q) ''Go''
      = Some [(0, 7, [''source.go'', ''keyword.other.package.go'']), (7, 6, [''source.go''])]"
  proof -
    have "length ''package main\<newline>'' < 2 ^ 64" by simp
    from scopify_decode_Some [OF scopify_demo_go this] show ?thesis
      by (simp add: demo_query_def decode_region_def)
  qed
  from index_export_refines_spec [OF s l, of demo_engine] r x show ?thesis
    by (simp add: demo_engine_def)
qed

end
